theory Spec2Isabelle
  imports Main
begin

section \<open>The facade (\<^verbatim>\<open>logger.go\<close>)\<close>

text \<open>
  A \<^verbatim>\<open>Logger\<close> holds pointers: to the \<^verbatim>\<open>zap.Logger\<close> and the \<^verbatim>\<open>zap.SugaredLogger\<close> it
  logs through, and to the rotating sink. Objects live in a heap and a pointer is an
  index into it (\<open>None\<close> is nil), so that sharing and the absence of mutation can be
  stated. Of the zap library only what \<^verbatim>\<open>WithFields\<close> calls is modelled: \<^verbatim>\<open>With\<close>
  returns its receiver when given no field and otherwise a copy of it with the fields
  added; \<^verbatim>\<open>Sugar\<close> wraps a copy of its receiver. Both copy by dereferencing the
  receiver, which panics when it is nil.
\<close>

datatype panic = NilDereference

record 'v zapLogger =
  zfields :: "(string \<times> 'v) list"
  callerSkip :: nat

record Logger =
  path :: string
  level :: string
  structured :: bool
  baseLogger :: "nat option"
  sugarLogger :: "nat option"
  rotator :: "nat option"

record 'v heap =
  zaps :: "'v zapLogger list"    \<comment> \<open>the \<^verbatim>\<open>zap.Logger\<close> objects\<close>
  sugars :: "nat list"           \<comment> \<open>the \<^verbatim>\<open>zap.SugaredLogger\<close> objects, each a pointer to its base\<close>
  loggers :: "Logger list"       \<comment> \<open>the \<^verbatim>\<open>Logger\<close> objects\<close>

definition zap_Any :: "string \<Rightarrow> 'v \<Rightarrow> string \<times> 'v" where
  "zap_Any k v = (k, v)"

definition zap_With ::
  "nat option \<Rightarrow> (string \<times> 'v) list \<Rightarrow> 'v heap \<Rightarrow> panic + (nat option \<times> 'v heap)" where
  "zap_With log flds h =
     (if flds = [] then Inr (log, h)
      else case log of
             None \<Rightarrow> Inl NilDereference
           | Some a \<Rightarrow>
               if a < length (zaps h)
               then Inr (Some (length (zaps h)),
                         h\<lparr>zaps := zaps h @ [(zaps h ! a)\<lparr>zfields := zfields (zaps h ! a) @ flds\<rparr>]\<rparr>)
               else Inl NilDereference)"

definition zap_Sugar :: "nat option \<Rightarrow> 'v heap \<Rightarrow> panic + (nat \<times> 'v heap)" where
  "zap_Sugar log h =
     (case log of
        None \<Rightarrow> Inl NilDereference
      | Some a \<Rightarrow>
          if a < length (zaps h)
          then Inr (length (sugars h),
                    h\<lparr>zaps := zaps h @ [(zaps h ! a)\<lparr>callerSkip := callerSkip (zaps h ! a) + 2\<rparr>],
                      sugars := sugars h @ [length (zaps h)]\<rparr>)
          else Inl NilDereference)"

text \<open>
  The loop of \<^verbatim>\<open>WithFields\<close> over the map of fields. The map is given as the list of its
  entries in the order the iteration visits them, which Go leaves unspecified.
\<close>

fun appendFields :: "(string \<times> 'v) list \<Rightarrow> (string \<times> 'v) list \<Rightarrow> (string \<times> 'v) list" where
  "appendFields [] zapFields = zapFields"
| "appendFields ((k, v) # rest) zapFields = appendFields rest (zapFields @ [zap_Any k v])"

text \<open>
  \<^verbatim>\<open>WithFields\<close> on the logger at address \<open>l\<close>: the result is the address of the new
  \<^verbatim>\<open>Logger\<close> and the heap that holds it.
\<close>

definition WithFields :: "nat \<Rightarrow> (string \<times> 'v) list \<Rightarrow> 'v heap \<Rightarrow> panic + (nat \<times> 'v heap)" where
  "WithFields l flds h =
     (if \<not> l < length (loggers h) then Inl NilDereference
      else case zap_With (baseLogger (loggers h ! l)) (appendFields flds []) h of
             Inl e \<Rightarrow> Inl e
           | Inr (newBaseLogger, h1) \<Rightarrow>
               (case zap_Sugar newBaseLogger h1 of
                  Inl e \<Rightarrow> Inl e
                | Inr (newSugar, h2) \<Rightarrow>
                    Inr (length (loggers h2),
                         h2\<lparr>loggers := loggers h2 @
                              [\<lparr>path = path (loggers h ! l),
                                level = level (loggers h ! l),
                                structured = structured (loggers h ! l),
                                baseLogger = newBaseLogger,
                                sugarLogger = Some newSugar,
                                rotator = rotator (loggers h ! l)\<rparr>]\<rparr>)))"

text \<open>
  \<^verbatim>\<open>NewLogger()\<close> called without options returns the struct literal it starts from;
  both zap pointers and the sink are nil until \<^verbatim>\<open>InitLogger\<close> sets them.
\<close>

definition NewLogger_literal :: Logger where
  "NewLogger_literal =
     \<lparr>path = [], level = ''info'', structured = False, baseLogger = None,
      sugarLogger = None, rotator = None\<rparr>"

text \<open>
  Example heaps: one that holds only the logger of \<^verbatim>\<open>NewLogger()\<close>, and one that holds
  a logger as \<^verbatim>\<open>InitLogger\<close> leaves it, with its zap logger, the sugared logger over a
  copy of it, and the sink at address 0.
\<close>

definition freshHeap :: "string heap" where
  "freshHeap = \<lparr>zaps = [], sugars = [], loggers = [NewLogger_literal]\<rparr>"

definition initHeap :: "string heap" where
  "initHeap =
     \<lparr>zaps = [\<lparr>zfields = [], callerSkip = 1\<rparr>, \<lparr>zfields = [], callerSkip = 3\<rparr>],
      sugars = [1],
      loggers = [\<lparr>path = ''logs'', level = ''info'', structured = False, baseLogger = Some 0,
                  sugarLogger = Some 0, rotator = Some 0\<rparr>]\<rparr>"

section \<open>The environment of the rotating sink\<close>

text \<open>
  The sink of \<^verbatim>\<open>rotation.go\<close> talks to three packages of the Go standard library:
  \<^verbatim>\<open>time\<close> (the wall clock), \<^verbatim>\<open>os\<close> (directories, files, file handles) and
  \<^verbatim>\<open>archive/zip\<close>. They are modelled by one record, the world, that every operation
  takes and returns. What the program cannot decide (what the clock shows, which call
  into the operating system fails) is read from two oracles of the world, so that a
  theorem about every world is a theorem about every behaviour of the environment.
\<close>

subsection \<open>Time\<close>

text \<open>
  A \<^verbatim>\<open>time.Time\<close> as far as the program reads it: the calendar fields behind
  \<^verbatim>\<open>Year()\<close>, \<^verbatim>\<open>Month()\<close>, \<^verbatim>\<open>Day()\<close>, and the rest of the instant (the time
  within the day), which the sink stores but never reads.
\<close>

record time =
  Year :: int
  Month :: nat
  Day :: nat
  nsec :: nat

text \<open>The zero value of \<^verbatim>\<open>time.Time\<close>: January 1 of year 1, 00:00:00.\<close>

definition zeroTime :: time where
  "zeroTime = \<lparr>Year = 1, Month = 1, Day = 1, nsec = 0\<rparr>"

text \<open>
  \<^verbatim>\<open>Format("2006_01_02")\<close>: the year zero-padded to four digits (with a sign when
  negative), the month and the day to two, separated by underscores.
\<close>

definition digit :: "nat \<Rightarrow> char" where
  "digit n = ''0123456789'' ! (n mod 10)"

fun decimal :: "nat \<Rightarrow> string" where
  "decimal n = (if n < 10 then [digit n] else decimal (n div 10) @ [digit n])"

definition appendInt :: "int \<Rightarrow> nat \<Rightarrow> string" where
  "appendInt x width =
     (let ds = decimal (nat \<bar>x\<bar>)
      in (if x < 0 then ''-'' else '''') @ replicate (width - length ds) (CHR ''0'') @ ds)"

definition Format :: "time \<Rightarrow> string" where
  "Format t = appendInt (Year t) 4 @ ''_'' @ appendInt (int (Month t)) 2 @ ''_''
                @ appendInt (int (Day t)) 2"

subsection \<open>Errors, files and the log of calls\<close>

datatype error =
    ErrNotExist   \<comment> \<open>\<^verbatim>\<open>fs.ErrNotExist\<close>\<close>
  | ErrClosed     \<comment> \<open>\<^verbatim>\<open>os.ErrClosed\<close>, "file already closed"\<close>
  | ErrInvalid    \<comment> \<open>\<^verbatim>\<open>os.ErrInvalid\<close>, a method of a nil \<^verbatim>\<open>*os.File\<close>\<close>
  | ErrIO         \<comment> \<open>any other failure reported by the operating system\<close>

text \<open>An \<^verbatim>\<open>os.File\<close>: the name it was opened under and whether it has been closed.\<close>

record osFile =
  fname :: string
  closed :: bool

text \<open>
  What a path holds: the bytes of a plain file, or a zip archive under construction,
  its entries in order and whether the archive has been finalised (its central
  directory written by \<^verbatim>\<open>zip.Writer.Close\<close>).
\<close>

datatype fdata = Raw string | Zip "(string \<times> string) list" bool

text \<open>Every call into the library is logged, in the order the program makes them.\<close>

datatype event =
    EvStat string
  | EvMkdirAll string
  | EvOpenFile string
  | EvSync nat
  | EvClose nat
  | EvWrite nat string
  | EvGo string
  | EvOpen string
  | EvCreate string
  | EvFstat nat
  | EvFileInfoHeader string
  | EvCreateHeader string
  | EvCopy nat
  | EvZipClose string
  | EvRemove string

record world =
  clock :: "nat \<Rightarrow> time"      \<comment> \<open>the successive readings of \<^verbatim>\<open>time.Now()\<close>\<close>
  ticks :: nat                \<comment> \<open>how many readings have been taken\<close>
  faults :: "nat \<Rightarrow> bool"     \<comment> \<open>whether the call logged at this position fails\<close>
  short :: "nat \<Rightarrow> nat"       \<comment> \<open>how many bytes a failing write or copy still transfers\<close>
  dirs :: "string set"        \<comment> \<open>the directories that exist\<close>
  files :: "string \<rightharpoonup> fdata"  \<comment> \<open>the files that exist, by name\<close>
  handles :: "osFile list"    \<comment> \<open>every \<^verbatim>\<open>os.File\<close> allocated so far; a pointer is an index\<close>
  trace :: "event list"       \<comment> \<open>the log of calls\<close>
  spawned :: "string list"    \<comment> \<open>the arguments of the \<^verbatim>\<open>compressFile\<close> goroutines started\<close>

definition Now :: "world \<Rightarrow> time \<times> world" where
  "Now w = (clock w (ticks w), w\<lparr>ticks := Suc (ticks w)\<rparr>)"

definition fault :: "world \<Rightarrow> bool" where
  "fault w = faults w (length (trace w))"

definition emit :: "event \<Rightarrow> world \<Rightarrow> world" where
  "emit e w = w\<lparr>trace := trace w @ [e]\<rparr>"

text \<open>
  \<^verbatim>\<open>os.Stat\<close>, of which the program reads the error only: \<^verbatim>\<open>ErrNotExist\<close> when nothing
  has that name.
\<close>

definition os_Stat :: "string \<Rightarrow> world \<Rightarrow> error option \<times> world" where
  "os_Stat p w =
     (if fault w then (Some ErrIO, emit (EvStat p) w)
      else if p \<in> dirs w \<or> p \<in> dom (files w) then (None, emit (EvStat p) w)
      else (Some ErrNotExist, emit (EvStat p) w))"

text \<open>
  \<^verbatim>\<open>os.MkdirAll\<close>. The empty path cannot be created (\<^verbatim>\<open>mkdir ""\<close> is \<^verbatim>\<open>ENOENT\<close>).
  Only the named directory is recorded, not its parents.
\<close>

definition os_MkdirAll :: "string \<Rightarrow> world \<Rightarrow> error option \<times> world" where
  "os_MkdirAll p w =
     (if fault w then (Some ErrIO, emit (EvMkdirAll p) w)
      else if p = [] then (Some ErrNotExist, emit (EvMkdirAll p) w)
      else (None, emit (EvMkdirAll p) (w\<lparr>dirs := insert p (dirs w)\<rparr>)))"

text \<open>
  \<^verbatim>\<open>os.OpenFile(name, O_CREATE|O_WRONLY|O_APPEND, 0666)\<close>: creates the file empty when
  it does not exist and returns a fresh handle.
\<close>

definition os_OpenFile :: "string \<Rightarrow> world \<Rightarrow> (error + nat) \<times> world" where
  "os_OpenFile name w =
     (if fault w then (Inl ErrIO, emit (EvOpenFile name) w)
      else (Inr (length (handles w)),
            emit (EvOpenFile name)
              (w\<lparr>files := (if name \<in> dom (files w) then files w else (files w)(name \<mapsto> Raw [])),
                 handles := handles w @ [\<lparr>fname = name, closed = False\<rparr>]\<rparr>)))"

text \<open>
  The methods of \<^verbatim>\<open>*os.File\<close>. The receiver is a pointer: \<open>None\<close> is nil, on which
  \<^verbatim>\<open>Sync\<close>, \<^verbatim>\<open>Close\<close> and \<^verbatim>\<open>Write\<close> return \<^verbatim>\<open>ErrInvalid\<close>. On a file that has been
  closed they return \<^verbatim>\<open>ErrClosed\<close>. A \<^verbatim>\<open>Close\<close> that reports a failure of the
  operating system has released the handle all the same.
\<close>

definition valid :: "nat option \<Rightarrow> world \<Rightarrow> bool" where
  "valid f w = (f \<noteq> None \<and> the f < length (handles w))"

definition File_Name :: "nat option \<Rightarrow> world \<Rightarrow> string" where
  "File_Name f w = (if valid f w then fname (handles w ! the f) else [])"

definition File_Sync :: "nat option \<Rightarrow> world \<Rightarrow> error option \<times> world" where
  "File_Sync f w =
     (if \<not> valid f w then (Some ErrInvalid, w)
      else if closed (handles w ! the f) then (Some ErrClosed, emit (EvSync (the f)) w)
      else if fault w then (Some ErrIO, emit (EvSync (the f)) w)
      else (None, emit (EvSync (the f)) w))"

definition File_Close :: "nat option \<Rightarrow> world \<Rightarrow> error option \<times> world" where
  "File_Close f w =
     (if \<not> valid f w then (Some ErrInvalid, w)
      else if closed (handles w ! the f) then (Some ErrClosed, emit (EvClose (the f)) w)
      else (if fault w then Some ErrIO else None,
            emit (EvClose (the f))
              (w\<lparr>handles := (handles w)[the f := (handles w ! the f)\<lparr>closed := True\<rparr>]\<rparr>)))"

text \<open>Appending to the file a handle was opened under, when it still exists.\<close>

definition appendTo :: "string \<Rightarrow> string \<Rightarrow> (string \<rightharpoonup> fdata) \<Rightarrow> (string \<rightharpoonup> fdata)" where
  "appendTo name p fs =
     (case fs name of Some (Raw bs) \<Rightarrow> fs(name \<mapsto> Raw (bs @ p)) | _ \<Rightarrow> fs)"

definition File_Write :: "nat option \<Rightarrow> string \<Rightarrow> world \<Rightarrow> (nat \<times> error option) \<times> world" where
  "File_Write f p w =
     (if \<not> valid f w then ((0, Some ErrInvalid), w)
      else if closed (handles w ! the f) then ((0, Some ErrClosed), emit (EvWrite (the f) p) w)
      else if fault w then
        (let n = min (short w (length (trace w))) (length p)
         in ((n, Some ErrIO),
             emit (EvWrite (the f) p)
               (w\<lparr>files := appendTo (fname (handles w ! the f)) (take n p) (files w)\<rparr>)))
      else ((length p, None),
            emit (EvWrite (the f) p)
              (w\<lparr>files := appendTo (fname (handles w ! the f)) p (files w)\<rparr>)))"

text \<open>
  \<^verbatim>\<open>filepath.Join\<close> of two elements: empty elements are dropped, the rest is joined by
  the separator and passed through \<^verbatim>\<open>filepath.Clean\<close>. The lexical cleaning is a
  parameter of the model, \<open>clean\<close>; nothing is assumed of it.
\<close>

definition filepath_Join :: "(string \<Rightarrow> string) \<Rightarrow> string \<Rightarrow> string \<Rightarrow> string" where
  "filepath_Join clean a b =
     (if a \<noteq> [] then clean (a @ ''/'' @ b) else if b \<noteq> [] then clean b else [])"

text \<open>
  The statement \<^verbatim>\<open>go compressFile(name)\<close>: the argument is evaluated, the goroutine is
  started, and the caller goes on without it.
\<close>

definition go_compressFile :: "string \<Rightarrow> world \<Rightarrow> world" where
  "go_compressFile name w = emit (EvGo name) (w\<lparr>spawned := spawned w @ [name]\<rparr>)"

section \<open>The rotating sink (\<^verbatim>\<open>rotation.go\<close>)\<close>

text \<open>
  The struct \<^verbatim>\<open>fileRotator\<close>. Its mutex is held for the whole of \<^verbatim>\<open>Write\<close> and of
  \<^verbatim>\<open>Close\<close>; each is modelled as one atomic step.
\<close>

record fileRotator =
  path :: string
  "file" :: "nat option"
  date :: time
  compress :: bool

definition openNew ::
  "(string \<Rightarrow> string) \<Rightarrow> time \<Rightarrow> fileRotator \<Rightarrow> world \<Rightarrow> error option \<times> fileRotator \<times> world" where
  "openNew clean onDate r0 w0 =
     (let r = r0\<lparr>date := onDate\<rparr>;
          (serr, w1) = os_Stat (path r) w0
      in case (if serr = Some ErrNotExist then os_MkdirAll (path r) w1 else (None, w1)) of
           (Some e, w2) \<Rightarrow> (Some e, r, w2)
         | (None, w2) \<Rightarrow>
             (case os_OpenFile (filepath_Join clean (path r) (Format (date r) @ ''.log'')) w2 of
                (Inl e, w3) \<Rightarrow> (Some e, r, w3)
              | (Inr f, w3) \<Rightarrow> (None, r\<lparr>file := Some f\<rparr>, w3)))"

text \<open>
  \<^verbatim>\<open>needRotate\<close> reads the clock once for each field it compares, and \<^verbatim>\<open>||\<close> stops at
  the first field that differs.
\<close>

definition needRotate :: "fileRotator \<Rightarrow> world \<Rightarrow> bool \<times> world" where
  "needRotate r w =
     (let (t1, w1) = Now w
      in if Day (date r) \<noteq> Day t1 then (True, w1)
         else let (t2, w2) = Now w1
              in if Month (date r) \<noteq> Month t2 then (True, w2)
                 else let (t3, w3) = Now w2
                      in (Year (date r) \<noteq> Year t3, w3))"

definition rotate_file ::
  "(string \<Rightarrow> string) \<Rightarrow> fileRotator \<Rightarrow> world \<Rightarrow> error option \<times> fileRotator \<times> world" where
  "rotate_file clean r w0 =
     (case File_Sync (file r) w0 of
        (Some e, w1) \<Rightarrow> (Some e, r, w1)
      | (None, w1) \<Rightarrow>
          (case File_Close (file r) w1 of
             (Some e, w2) \<Rightarrow> (Some e, r, w2)
           | (None, w2) \<Rightarrow>
               (let w3 = (if compress r then go_compressFile (File_Name (file r) w2) w2 else w2);
                    (t, w4) = Now w3
                in openNew clean t r w4)))"

definition Write ::
  "(string \<Rightarrow> string) \<Rightarrow> fileRotator \<Rightarrow> string \<Rightarrow> world
     \<Rightarrow> (nat \<times> error option) \<times> fileRotator \<times> world" where
  "Write clean r0 p w0 =
     (case (if file r0 = None then (let (t, w) = Now w0 in openNew clean t r0 w)
            else (None, r0, w0)) of
        (Some e, r1, w1) \<Rightarrow> ((0, Some e), r1, w1)
      | (None, r1, w1) \<Rightarrow>
          (let (need, w2) = needRotate r1 w1
           in case (if need then rotate_file clean r1 w2 else (None, r1, w2)) of
                (Some e, r2, w3) \<Rightarrow> ((0, Some e), r2, w3)
              | (None, r2, w3) \<Rightarrow>
                  (let (res, w4) = File_Write (file r2) p w3 in (res, r2, w4))))"

text \<open>\<^verbatim>\<open>Close\<close> assigns to no field of the sink, so it returns the world only.\<close>

definition Close :: "fileRotator \<Rightarrow> world \<Rightarrow> error option \<times> world" where
  "Close r w0 =
     (if file r = None then (None, w0)
      else case File_Sync (file r) w0 of
             (Some e, w1) \<Rightarrow> (Some e, w1)
           | (None, w1) \<Rightarrow>
               (case File_Close (file r) w1 of
                  (Some e, w2) \<Rightarrow> (Some e, w2)
                | (None, w2) \<Rightarrow> (None, w2)))"


text \<open>
  The method \<^verbatim>\<open>rotate\<close> is \<open>rotate_file\<close> here, \<open>rotate\<close> being a function on lists.
\<close>

section \<open>The compression worker (\<^verbatim>\<open>compressFile\<close>)\<close>

text \<open>\<^verbatim>\<open>os.Open\<close>, for reading: the file must exist.\<close>

definition os_Open :: "string \<Rightarrow> world \<Rightarrow> (error + nat) \<times> world" where
  "os_Open name w =
     (if fault w then (Inl ErrIO, emit (EvOpen name) w)
      else if name \<notin> dom (files w) then (Inl ErrNotExist, emit (EvOpen name) w)
      else (Inr (length (handles w)),
            emit (EvOpen name) (w\<lparr>handles := handles w @ [\<lparr>fname = name, closed = False\<rparr>]\<rparr>)))"

text \<open>\<^verbatim>\<open>os.Create\<close>: creates the file, or truncates the one that exists.\<close>

definition os_Create :: "string \<Rightarrow> world \<Rightarrow> (error + nat) \<times> world" where
  "os_Create name w =
     (if fault w then (Inl ErrIO, emit (EvCreate name) w)
      else (Inr (length (handles w)),
            emit (EvCreate name)
              (w\<lparr>files := (files w)(name \<mapsto> Raw []),
                 handles := handles w @ [\<lparr>fname = name, closed = False\<rparr>]\<rparr>)))"

definition os_Remove :: "string \<Rightarrow> world \<Rightarrow> error option \<times> world" where
  "os_Remove name w =
     (if fault w then (Some ErrIO, emit (EvRemove name) w)
      else if name \<notin> dom (files w) then (Some ErrNotExist, emit (EvRemove name) w)
      else (None, emit (EvRemove name) (w\<lparr>files := (files w)(name := None)\<rparr>)))"

text \<open>
  \<^verbatim>\<open>filepath.Base\<close>: trailing separators are stripped and the last element is returned;
  the empty path gives \<^verbatim>\<open>"."\<close> and a path of separators only gives \<^verbatim>\<open>"/"\<close>.
\<close>

definition stripSlashes :: "string \<Rightarrow> string" where
  "stripSlashes p = rev (dropWhile (\<lambda>c. c = CHR ''/'') (rev p))"

definition Base :: "string \<Rightarrow> string" where
  "Base p =
     (if p = [] then ''.''
      else let q = rev (takeWhile (\<lambda>c. c \<noteq> CHR ''/'') (rev (stripSlashes p)))
           in if q = [] then ''/'' else q)"

text \<open>
  \<^verbatim>\<open>(*os.File).Stat\<close>, of which the worker uses the name (the base name of the name the
  file was opened under) and the size.
\<close>

record FileInfo =
  Name :: string
  Size :: nat

definition contents :: "string \<Rightarrow> world \<Rightarrow> string" where
  "contents name w = (case files w name of Some (Raw bs) \<Rightarrow> bs | _ \<Rightarrow> [])"

definition File_Stat :: "nat option \<Rightarrow> world \<Rightarrow> (error + FileInfo) \<times> world" where
  "File_Stat f w =
     (if \<not> valid f w then (Inl ErrInvalid, w)
      else if closed (handles w ! the f) then (Inl ErrClosed, emit (EvFstat (the f)) w)
      else if fault w then (Inl ErrIO, emit (EvFstat (the f)) w)
      else (Inr \<lparr>Name = Base (fname (handles w ! the f)),
                Size = length (contents (fname (handles w ! the f)) w)\<rparr>,
            emit (EvFstat (the f)) w))"

text \<open>
  The \<^verbatim>\<open>archive/zip\<close> calls. \<^verbatim>\<open>zip.FileInfoHeader\<close> makes the header of an entry named
  as the file info is. A \<^verbatim>\<open>zip.Writer\<close> writes through a buffer: the entries that
  \<^verbatim>\<open>CreateHeader\<close> starts and \<^verbatim>\<open>io.Copy\<close> fills (a failing copy with part of the
  bytes) are held by the writer, and reach the file only when \<^verbatim>\<open>Close\<close> flushes them
  and writes the central directory. A \<^verbatim>\<open>Close\<close> that fails has flushed as many bytes of
  the entries as \<open>short\<close> says; when that is none, the file is left as it was created,
  empty. The buffer is taken to hold any entry: of an entry longer than the buffer the
  real writer flushes the first part while it copies, which changes what an archive that
  is not finalised holds, not whether it is finalised.
\<close>

definition zip_FileInfoHeader :: "FileInfo \<Rightarrow> world \<Rightarrow> (error + string) \<times> world" where
  "zip_FileInfoHeader fi w =
     (if fault w then (Inl ErrIO, emit (EvFileInfoHeader (Name fi)) w)
      else (Inr (Name fi), emit (EvFileInfoHeader (Name fi)) w))"

record zipWriter =
  target :: nat                          \<comment> \<open>the handle of the file written to\<close>
  pending :: "(string \<times> string) list"    \<comment> \<open>the entries held in the buffer\<close>

definition zip_NewWriter :: "nat \<Rightarrow> zipWriter" where
  "zip_NewWriter zf = \<lparr>target = zf, pending = []\<rparr>"

definition zip_CreateHeader :: "zipWriter \<Rightarrow> string \<Rightarrow> world \<Rightarrow> (error + zipWriter) \<times> world" where
  "zip_CreateHeader zw header w =
     (if fault w then (Inl ErrIO, emit (EvCreateHeader header) w)
      else (Inr (zw\<lparr>pending := pending zw @ [(header, [])]\<rparr>), emit (EvCreateHeader header) w))"

definition fillLast :: "string \<Rightarrow> (string \<times> string) list \<Rightarrow> (string \<times> string) list" where
  "fillLast bs es = (if es = [] then [] else butlast es @ [(fst (last es), snd (last es) @ bs)])"

definition io_Copy :: "zipWriter \<Rightarrow> nat \<Rightarrow> world \<Rightarrow> error option \<times> zipWriter \<times> world" where
  "io_Copy zw f w =
     (let bs = contents (fname (handles w ! f)) w
      in if fault w then
           (Some ErrIO,
            zw\<lparr>pending := fillLast (take (short w (length (trace w))) bs) (pending zw)\<rparr>,
            emit (EvCopy f) w)
         else (None, zw\<lparr>pending := fillLast bs (pending zw)\<rparr>, emit (EvCopy f) w))"

definition truncated :: "nat \<Rightarrow> (string \<times> string) list \<Rightarrow> (string \<times> string) list" where
  "truncated n es = map (\<lambda>e. (fst e, take n (snd e))) es"

definition zip_Close :: "zipWriter \<Rightarrow> world \<Rightarrow> error option \<times> world" where
  "zip_Close zw w =
     (let zname = fname (handles w ! target zw)
      in if fault w then
           (Some ErrIO,
            emit (EvZipClose zname)
              (if short w (length (trace w)) = 0 then w
               else w\<lparr>files := (files w)(zname \<mapsto>
                        Zip (truncated (short w (length (trace w))) (pending zw)) False)\<rparr>))
         else (None,
               emit (EvZipClose zname)
                 (w\<lparr>files := (files w)(zname \<mapsto> Zip (pending zw) True)\<rparr>)))"

text \<open>
  \<^verbatim>\<open>compressFile\<close> returns nothing. Its three \<^verbatim>\<open>defer\<close> statements run when it returns,
  the last deferred first: \<^verbatim>\<open>zipWriter.Close()\<close>, \<^verbatim>\<open>zipFile.Close()\<close>,
  \<^verbatim>\<open>file.Close()\<close>; each is registered only once the function has got that far. The
  statements after the writer is made are \<open>compressBody\<close>, which returns the writer
  as the deferred \<^verbatim>\<open>Close\<close> finds it.
\<close>

definition compressBody :: "string \<Rightarrow> nat \<Rightarrow> zipWriter \<Rightarrow> world \<Rightarrow> zipWriter \<times> world" where
  "compressBody src f zw w2 =
     (case File_Stat (Some f) w2 of
        (Inl e, w3) \<Rightarrow> (zw, w3)
      | (Inr info, w3) \<Rightarrow>
          (case zip_FileInfoHeader info w3 of
             (Inl e, w4) \<Rightarrow> (zw, w4)
           | (Inr header, w4) \<Rightarrow>
               (case zip_CreateHeader zw header w4 of
                  (Inl e, w5) \<Rightarrow> (zw, w5)
                | (Inr zw1, w5) \<Rightarrow>
                    (case io_Copy zw1 f w5 of
                       (Some e, zw2, w6) \<Rightarrow> (zw2, w6)
                     | (None, zw2, w6) \<Rightarrow>
                         (zw2, snd (os_Remove src (snd (File_Close (Some f) w6))))))))"

definition compressFile :: "string \<Rightarrow> world \<Rightarrow> world" where
  "compressFile src w0 =
     (case os_Open src w0 of
        (Inl e, w1) \<Rightarrow> w1
      | (Inr f, w1) \<Rightarrow>
          snd (File_Close (Some f)
            (case os_Create (src @ ''.zip'') w1 of
               (Inl e, w2) \<Rightarrow> w2
             | (Inr zf, w2) \<Rightarrow>
                 (case compressBody src f (zip_NewWriter zf) w2 of
                    (zw, w7) \<Rightarrow> snd (File_Close (Some zf) (snd (zip_Close zw w7)))))))"

section \<open>Observations and example states\<close>

text \<open>
  Within \<^verbatim>\<open>Write\<close>, \<^verbatim>\<open>Sync\<close> is called by \<^verbatim>\<open>rotate\<close> only, as its first statement. The
  number of \<^verbatim>\<open>Sync\<close> calls a \<^verbatim>\<open>Write\<close> adds to the log is the number of rotations it
  has begun.
\<close>

fun is_Sync :: "event \<Rightarrow> bool" where
  "is_Sync (EvSync h) = True"
| "is_Sync e = False"

definition syncs :: "world \<Rightarrow> nat" where
  "syncs w = length (filter is_Sync (trace w))"

text \<open>The calls a step from \<open>w\<close> to \<open>w'\<close> has added to the log.\<close>

definition new_events :: "world \<Rightarrow> world \<Rightarrow> event list" where
  "new_events w w' = drop (length (trace w)) (trace w')"

text \<open>The calendar date of an instant, as \<^verbatim>\<open>needRotate\<close> compares it.\<close>

definition ymd :: "time \<Rightarrow> int \<times> nat \<times> nat" where
  "ymd t = (Year t, Month t, Day t)"

text \<open>
  Example states: a day of May 2024; a world with an empty file system, given its clock
  and its faults; the sink as \<^verbatim>\<open>InitLogger\<close> creates it,
  \<^verbatim>\<open>&fileRotator{path: l.path, compress: true}\<close>; and a sink that has the log of
  May 1 open, in a world where it is May 2.
\<close>

definition may :: "nat \<Rightarrow> time" where
  "may d = \<lparr>Year = 2024, Month = 5, Day = d, nsec = 0\<rparr>"

definition emptyWorld :: "(nat \<Rightarrow> time) \<Rightarrow> (nat \<Rightarrow> bool) \<Rightarrow> world" where
  "emptyWorld c f =
     \<lparr>clock = c, ticks = 0, faults = f, short = (\<lambda>k. 0), dirs = {}, files = Map.empty,
      handles = [], trace = [], spawned = []\<rparr>"

definition newRotator :: "string \<Rightarrow> bool \<Rightarrow> fileRotator" where
  "newRotator d c = \<lparr>path = d, file = None, date = zeroTime, compress = c\<rparr>"

definition sinkMay1 :: fileRotator where
  "sinkMay1 = \<lparr>path = ''logs'', file = Some 0, date = may 1, compress = True\<rparr>"

definition worldMay2 :: "(nat \<Rightarrow> bool) \<Rightarrow> world" where
  "worldMay2 f =
     \<lparr>clock = (\<lambda>k. may 2), ticks = 0, faults = f, short = (\<lambda>k. 0), dirs = {''logs''},
      files = [''logs/2024_05_01.log'' \<mapsto> Raw ''old''],
      handles = [\<lparr>fname = ''logs/2024_05_01.log'', closed = False\<rparr>], trace = [],
      spawned = []\<rparr>"

text \<open>
  The first \<^verbatim>\<open>Write\<close> of a new sink on May 1 in a world without faults, and the
  \<^verbatim>\<open>Close\<close> that follows it.
\<close>

definition afterWrite :: "(nat \<times> error option) \<times> fileRotator \<times> world" where
  "afterWrite =
     Write id (newRotator ''logs'' True) ''hello'' (emptyWorld (\<lambda>k. may 1) (\<lambda>k. False))"

definition afterClose :: "error option \<times> world" where
  "afterClose = Close (fst (snd afterWrite)) (snd (snd afterWrite))"

text \<open>A world in which no call fails.\<close>

definition calm :: "world \<Rightarrow> bool" where
  "calm w = (\<forall>k. \<not> faults w k)"

text \<open>
  The readings of the clock during one \<^verbatim>\<open>Write\<close>: at most three by \<^verbatim>\<open>needRotate\<close> and
  one by \<^verbatim>\<open>rotate\<close>. \<open>one_date w today\<close> says that they all show the calendar date
  \<open>today\<close>.
\<close>

definition one_date :: "world \<Rightarrow> int \<times> nat \<times> nat \<Rightarrow> bool" where
  "one_date w today = (\<forall>k \<in> {0..<4}. ymd (clock w (ticks w + k)) = today)"

text \<open>
  A sink that has the log of May 30 open, in a world where the date changes from
  April 30 to May 1 between the first and the second reading of the clock.
\<close>

definition april :: "nat \<Rightarrow> time" where
  "april d = \<lparr>Year = 2024, Month = 4, Day = d, nsec = 0\<rparr>"

definition sinkMay30 :: fileRotator where
  "sinkMay30 = \<lparr>path = ''logs'', file = Some 0, date = may 30, compress = True\<rparr>"

definition tornWorld :: world where
  "tornWorld =
     \<lparr>clock = (\<lambda>k. if k = 0 then april 30 else may 1), ticks = 0, faults = (\<lambda>k. False),
      short = (\<lambda>k. 0), dirs = {''logs''},
      files = [''logs/2024_05_30.log'' \<mapsto> Raw ''old''],
      handles = [\<lparr>fname = ''logs/2024_05_30.log'', closed = False\<rparr>], trace = [],
      spawned = []\<rparr>"

text \<open>
  A world after a rotation on May 2: the log of May 1 is closed and a worker has been
  started for it.
\<close>

definition retiredWorld :: "(nat \<Rightarrow> bool) \<Rightarrow> world" where
  "retiredWorld f =
     \<lparr>clock = (\<lambda>k. may 2), ticks = 0, faults = f, short = (\<lambda>k. 0), dirs = {''logs''},
      files = [''logs/2024_05_01.log'' \<mapsto> Raw ''old''],
      handles = [\<lparr>fname = ''logs/2024_05_01.log'', closed = True\<rparr>], trace = [],
      spawned = [''logs/2024_05_01.log'']\<rparr>"

text \<open>
  The two calls of \<^verbatim>\<open>openNew\<close> whose error it returns: creating the directory and
  opening the file.
\<close>

fun is_open_call :: "event \<Rightarrow> bool" where
  "is_open_call (EvMkdirAll d) = True"
| "is_open_call (EvOpenFile n) = True"
| "is_open_call e = False"

text \<open>
  A \<^verbatim>\<open>Write\<close> whose last call into the library is \<^verbatim>\<open>MkdirAll\<close> or \<^verbatim>\<open>OpenFile\<close> has
  returned the error of that call: after a directory is created the file is opened,
  and after a file is opened the record is written to it.
\<close>

definition ended_in_open :: "world \<Rightarrow> world \<Rightarrow> bool" where
  "ended_in_open w w' = (new_events w w' \<noteq> [] \<and> is_open_call (last (new_events w w')))"

text \<open>
  The world in which \<^verbatim>\<open>rotate\<close> calls \<^verbatim>\<open>openNew\<close>: the old file synced and closed, the
  worker started when \<^verbatim>\<open>compress\<close> is set, the clock read once.
\<close>

definition retired :: "fileRotator \<Rightarrow> nat \<Rightarrow> world \<Rightarrow> world" where
  "retired r h w =
     snd (Now (let w2 = snd (File_Close (Some h) (snd (File_Sync (Some h) w)))
               in if compress r then go_compressFile (fname (handles w ! h)) w2 else w2))"

text \<open>
  \<^verbatim>\<open>rotate\<close> gets as far as \<^verbatim>\<open>openNew\<close> when the file is open and neither its
  \<^verbatim>\<open>Sync\<close> nor its \<^verbatim>\<open>Close\<close> fails.
\<close>

definition closes_ok :: "nat \<Rightarrow> world \<Rightarrow> bool" where
  "closes_ok h w = (\<not> closed (handles w ! h) \<and> \<not> faults w (length (trace w))
                     \<and> \<not> faults w (Suc (length (trace w))))"

text \<open>
  Two failing calls: the first \<^verbatim>\<open>Write\<close> of a new sink when the directory cannot be
  created, and a \<^verbatim>\<open>Write\<close> on May 2 to the sink of May 1 when the new file cannot be
  opened.
\<close>

definition failedFirstWrite :: "(nat \<times> error option) \<times> fileRotator \<times> world" where
  "failedFirstWrite =
     Write id (newRotator ''logs'' True) ''hello'' (emptyWorld (\<lambda>k. may 1) (\<lambda>k. k = 1))"

definition failedRotation :: "(nat \<times> error option) \<times> fileRotator \<times> world" where
  "failedRotation = Write id sinkMay1 ''a'' (worldMay2 (\<lambda>k. k = 4))"

text \<open>
  The lifetime of a sink: any sequence of calls of \<^verbatim>\<open>Write\<close> and \<^verbatim>\<open>Close\<close>, with runs of
  the compression worker in between.
\<close>

datatype call = CallWrite string | CallClose | RunWorker string

fun step :: "(string \<Rightarrow> string) \<Rightarrow> call \<Rightarrow> fileRotator \<times> world \<Rightarrow> fileRotator \<times> world" where
  "step clean (CallWrite p) (r, w) = snd (Write clean r p w)"
| "step clean CallClose (r, w) = (r, snd (Close r w))"
| "step clean (RunWorker src) (r, w) = (r, compressFile src w)"

definition run :: "(string \<Rightarrow> string) \<Rightarrow> call list \<Rightarrow> fileRotator \<times> world \<Rightarrow> fileRotator \<times> world" where
  "run clean cs s = fold (step clean) cs s"

text \<open>
  The name of the open file follows the stored date: the sink keeps its directory, and
  when its field \<^verbatim>\<open>file\<close> points at a handle that is open, the handle's name is the
  join of the directory with the formatted date and the extension.
\<close>

definition named :: "(string \<Rightarrow> string) \<Rightarrow> string \<Rightarrow> fileRotator \<times> world \<Rightarrow> bool" where
  "named clean d s =
     (path (fst s) = d \<and>
      (case file (fst s) of
         None \<Rightarrow> True
       | Some h \<Rightarrow>
           h < length (handles (snd s)) \<and>
           (\<not> closed (handles (snd s) ! h) \<longrightarrow>
              fname (handles (snd s) ! h) = filepath_Join clean d (Format (date (fst s)) @ ''.log''))))"

section \<open>Basic facts about the environment\<close>

lemma emit_simps [simp]:
  "trace (emit e w) = trace w @ [e]"
  "handles (emit e w) = handles w"
  "files (emit e w) = files w"
  "dirs (emit e w) = dirs w"
  "spawned (emit e w) = spawned w"
  "ticks (emit e w) = ticks w"
  "clock (emit e w) = clock w"
  "faults (emit e w) = faults w"
  "short (emit e w) = short w"
  by (simp_all add: emit_def)

lemma needRotate_fst:
  "fst (needRotate r w) =
     (Day (date r) \<noteq> Day (clock w (ticks w)) \<or> Month (date r) \<noteq> Month (clock w (Suc (ticks w)))
      \<or> Year (date r) \<noteq> Year (clock w (Suc (Suc (ticks w)))))"
  by (simp add: needRotate_def Now_def Let_def)

lemma needRotate_frame [simp]:
  "trace (snd (needRotate r w)) = trace w"
  "handles (snd (needRotate r w)) = handles w"
  "files (snd (needRotate r w)) = files w"
  "dirs (snd (needRotate r w)) = dirs w"
  "spawned (snd (needRotate r w)) = spawned w"
  "clock (snd (needRotate r w)) = clock w"
  "faults (snd (needRotate r w)) = faults w"
  "short (snd (needRotate r w)) = short w"
  by (simp_all add: needRotate_def Now_def Let_def)

lemma syncs_needRotate [simp]: "syncs (snd (needRotate r w)) = syncs w"
  by (simp add: syncs_def)

lemma valid_needRotate [simp]: "valid f (snd (needRotate r w)) = valid f w"
  by (simp add: valid_def)

lemma syncs_openNew [simp]: "syncs (snd (snd (openNew clean t r w))) = syncs w"
  by (simp add: openNew_def os_Stat_def os_MkdirAll_def os_OpenFile_def syncs_def Let_def
      split: prod.split option.split sum.split)


lemma syncs_File_Write [simp]: "syncs (snd (File_Write f p w)) = syncs w"
  by (simp add: File_Write_def syncs_def Let_def)

section \<open>Facts about the sink\<close>

subsection \<open>The library calls\<close>

lemma Now_simps [simp]:
  "fst (Now w) = clock w (ticks w)"
  "trace (snd (Now w)) = trace w"
  "handles (snd (Now w)) = handles w"
  "files (snd (Now w)) = files w"
  "dirs (snd (Now w)) = dirs w"
  "spawned (snd (Now w)) = spawned w"
  "clock (snd (Now w)) = clock w"
  "faults (snd (Now w)) = faults w"
  "short (snd (Now w)) = short w"
  "ticks (snd (Now w)) = Suc (ticks w)"
  by (simp_all add: Now_def)

lemma go_simps [simp]:
  "trace (go_compressFile n w) = trace w @ [EvGo n]"
  "handles (go_compressFile n w) = handles w"
  "files (go_compressFile n w) = files w"
  "dirs (go_compressFile n w) = dirs w"
  "spawned (go_compressFile n w) = spawned w @ [n]"
  "clock (go_compressFile n w) = clock w"
  "faults (go_compressFile n w) = faults w"
  "short (go_compressFile n w) = short w"
  "ticks (go_compressFile n w) = ticks w"
  by (simp_all add: go_compressFile_def)

lemma Sync_simps [simp]:
  "handles (snd (File_Sync f w)) = handles w"
  "files (snd (File_Sync f w)) = files w"
  "dirs (snd (File_Sync f w)) = dirs w"
  "spawned (snd (File_Sync f w)) = spawned w"
  "clock (snd (File_Sync f w)) = clock w"
  "faults (snd (File_Sync f w)) = faults w"
  "short (snd (File_Sync f w)) = short w"
  "ticks (snd (File_Sync f w)) = ticks w"
  by (simp_all add: File_Sync_def)

lemma Sync_trace:
  "trace (snd (File_Sync f w)) = (if valid f w then trace w @ [EvSync (the f)] else trace w)"
  by (simp add: File_Sync_def)

lemma Sync_fst:
  "fst (File_Sync f w) =
     (if \<not> valid f w then Some ErrInvalid
      else if closed (handles w ! the f) then Some ErrClosed
      else if fault w then Some ErrIO else None)"
  by (simp add: File_Sync_def)

lemma Close_simps [simp]:
  "files (snd (File_Close f w)) = files w"
  "dirs (snd (File_Close f w)) = dirs w"
  "spawned (snd (File_Close f w)) = spawned w"
  "clock (snd (File_Close f w)) = clock w"
  "faults (snd (File_Close f w)) = faults w"
  "short (snd (File_Close f w)) = short w"
  "ticks (snd (File_Close f w)) = ticks w"
  "length (handles (snd (File_Close f w))) = length (handles w)"
  by (simp_all add: File_Close_def)

lemma Close_trace:
  "trace (snd (File_Close f w)) = (if valid f w then trace w @ [EvClose (the f)] else trace w)"
  by (simp add: File_Close_def)

lemma Close_fst:
  "fst (File_Close f w) =
     (if \<not> valid f w then Some ErrInvalid
      else if closed (handles w ! the f) then Some ErrClosed
      else if fault w then Some ErrIO else None)"
  by (simp add: File_Close_def)

lemma Close_closes [simp]:
  "h < length (handles w) \<Longrightarrow> closed (handles (snd (File_Close (Some h) w)) ! h)"
  by (simp add: File_Close_def valid_def)

lemma Close_fname [simp]:
  "fname (handles (snd (File_Close f w)) ! i) = fname (handles w ! i)"
  by (cases "i = the f") (simp_all add: File_Close_def valid_def)

lemma Close_other:
  "i \<noteq> the f \<Longrightarrow> handles (snd (File_Close f w)) ! i = handles w ! i"
  by (simp add: File_Close_def)

lemma Close_mono:
  "closed (handles w ! i) \<Longrightarrow> closed (handles (snd (File_Close f w)) ! i)"
  by (cases "i = the f") (simp_all add: File_Close_def valid_def)

lemma Write_simps [simp]:
  "handles (snd (File_Write f p w)) = handles w"
  "dirs (snd (File_Write f p w)) = dirs w"
  "spawned (snd (File_Write f p w)) = spawned w"
  "clock (snd (File_Write f p w)) = clock w"
  "faults (snd (File_Write f p w)) = faults w"
  "short (snd (File_Write f p w)) = short w"
  "ticks (snd (File_Write f p w)) = ticks w"
  by (simp_all add: File_Write_def Let_def)

lemma FWrite_trace:
  "trace (snd (File_Write f p w)) = (if valid f w then trace w @ [EvWrite (the f) p] else trace w)"
  by (simp add: File_Write_def Let_def)

lemma FWrite_closed:
  "valid f w \<Longrightarrow> closed (handles w ! the f) \<Longrightarrow>
     fst (File_Write f p w) = (0, Some ErrClosed) \<and> files (snd (File_Write f p w)) = files w"
  by (simp add: File_Write_def)

lemma dom_appendTo [simp]: "dom (appendTo n p fs) = dom fs"
  by (auto simp: appendTo_def split: option.splits fdata.splits)

lemma FWrite_dom [simp]: "dom (files (snd (File_Write f p w))) = dom (files w)"
  by (simp add: File_Write_def Let_def)

subsection \<open>What \<^verbatim>\<open>openNew\<close> does\<close>

lemma openNew_frame [simp]:
  "spawned (snd (snd (openNew clean t r w))) = spawned w"
  "clock (snd (snd (openNew clean t r w))) = clock w"
  "faults (snd (snd (openNew clean t r w))) = faults w"
  "short (snd (snd (openNew clean t r w))) = short w"
  "ticks (snd (snd (openNew clean t r w))) = ticks w"
  by (simp_all add: openNew_def os_Stat_def os_MkdirAll_def os_OpenFile_def Let_def
      split: prod.split option.split sum.split)

lemma openNew_sink:
  "fst (snd (openNew clean t r w)) =
     (if fst (openNew clean t r w) = None then r\<lparr>date := t, file := Some (length (handles w))\<rparr>
      else r\<lparr>date := t\<rparr>)"
  by (simp add: openNew_def os_Stat_def os_MkdirAll_def os_OpenFile_def Let_def
      split: prod.split option.split sum.split)

lemma openNew_handles:
  "handles (snd (snd (openNew clean t r w))) =
     (if fst (openNew clean t r w) = None
      then handles w @ [\<lparr>fname = filepath_Join clean (path r) (Format t @ ''.log''), closed = False\<rparr>]
      else handles w)"
  by (simp add: openNew_def os_Stat_def os_MkdirAll_def os_OpenFile_def Let_def
      split: prod.split option.split sum.split)

lemma openNew_files:
  "files (snd (snd (openNew clean t r w))) =
     (if fst (openNew clean t r w) = None
         \<and> filepath_Join clean (path r) (Format t @ ''.log'') \<notin> dom (files w)
      then (files w)(filepath_Join clean (path r) (Format t @ ''.log'') \<mapsto> Raw [])
      else files w)"
  by (simp add: openNew_def os_Stat_def os_MkdirAll_def os_OpenFile_def Let_def
      split: prod.split option.split sum.split)

lemma openNew_trace:
  "\<exists>mk opn. trace (snd (snd (openNew clean t r w))) =
       trace w @ [EvStat (path r)] @ (if mk then [EvMkdirAll (path r)] else [])
         @ (if opn then [EvOpenFile (filepath_Join clean (path r) (Format t @ ''.log''))] else [])
     \<and> (fst (openNew clean t r w) = None \<longrightarrow> opn) \<and> (mk \<or> opn)"
  apply (simp add: openNew_def os_Stat_def os_MkdirAll_def os_OpenFile_def Let_def
      split: prod.split option.split sum.split)
  apply blast+
  done


subsection \<open>A sink whose handle has been closed\<close>

lemma rotate_file_closed:
  assumes "file r = Some h" "h < length (handles v)" "closed (handles v ! h)"
  shows "rotate_file clean r v = (Some ErrClosed, r, emit (EvSync h) v)"
  using assms by (simp add: rotate_file_def File_Sync_def valid_def)

lemma Write_closed:
  assumes "file r = Some h" "h < length (handles v)" "closed (handles v ! h)"
  shows "fst (Write clean r q v) = (0, Some ErrClosed)"
    and "fst (snd (Write clean r q v)) = r"
    and "files (snd (snd (Write clean r q v))) = files v"
    and "handles (snd (snd (Write clean r q v))) = handles v"
    and "new_events v (snd (snd (Write clean r q v)))
           = (if fst (needRotate r v) then [EvSync h] else [EvWrite h q])"
  using assms
  by (simp_all add: Write_def split_beta Let_def rotate_file_closed File_Write_def valid_def
      new_events_def)

lemma Close_closed:
  assumes "file r = Some h" "h < length (handles v)" "closed (handles v ! h)"
  shows "Close r v = (Some ErrClosed, emit (EvSync h) v)"
  using assms by (simp add: Close_def File_Sync_def valid_def)

lemma Close_result:
  assumes "file r = Some h" "h < length (handles w)" "fst (Close r w) = None"
  shows "closed (handles (snd (Close r w)) ! h)" "length (handles (snd (Close r w))) = length (handles w)"
  using assms
  by (simp_all add: Close_def split_beta Sync_fst Close_fst valid_def split: option.splits if_splits)

lemma afterWrite_eval:
  "fst afterWrite = (5, None)" 
  "file (fst (snd afterWrite)) = Some 0"
  "length (handles (snd (snd afterWrite))) = 1"
  by (simp_all add: afterWrite_def Write_def newRotator_def emptyWorld_def openNew_def Now_def os_Stat_def
   os_MkdirAll_def os_OpenFile_def fault_def needRotate_def File_Write_def valid_def Let_def zeroTime_def may_def)

lemma afterClose_eval:
  "fst afterClose = None"
  apply (simp add: afterClose_def Close_def split_beta afterWrite_eval Sync_fst Close_fst valid_def)
  apply (simp_all add: afterWrite_def Write_def newRotator_def emptyWorld_def openNew_def Now_def os_Stat_def
   os_MkdirAll_def os_OpenFile_def fault_def needRotate_def File_Write_def valid_def Let_def zeroTime_def may_def File_Sync_def)
  done


section \<open>Close\<close>

text \<open>
  Claim C3, as stated, fails: \<^verbatim>\<open>Close\<close> closes the file and leaves the field \<^verbatim>\<open>file\<close>
  pointing at it. After a first \<^verbatim>\<open>Write\<close> and a \<^verbatim>\<open>Close\<close> that both succeed, a second
  \<^verbatim>\<open>Close\<close> returns the error of a closed file, and so does a further \<^verbatim>\<open>Write\<close>, with
  nothing written.
\<close>

theorem second_Close_and_Write_after_Close_fail:
  "fst afterWrite = (5, None) \<and> fst afterClose = None
   \<and> fst (Close (fst (snd afterWrite)) (snd afterClose)) = Some ErrClosed
   \<and> fst (Write id (fst (snd afterWrite)) ''again'' (snd afterClose)) = (0, Some ErrClosed)"
proof -
  have f: "file (fst (snd afterWrite)) = Some 0" by (rule afterWrite_eval)
  have v: "0 < length (handles (snd (snd afterWrite)))" by (simp add: afterWrite_eval)
  have ok: "fst (Close (fst (snd afterWrite)) (snd (snd afterWrite))) = None"
    using afterClose_eval by (simp add: afterClose_def)
  have c: "closed (handles (snd afterClose) ! 0)" and l: "0 < length (handles (snd afterClose))"
    using Close_result [OF f v ok] v by (simp_all add: afterClose_def)
  show ?thesis
    using Close_closed [OF f l c] Write_closed(1) [OF f l c] afterWrite_eval(1) afterClose_eval
    by simp
qed

text \<open>
  Claim C3, amended. \<^verbatim>\<open>Close\<close> on a sink whose field \<^verbatim>\<open>file\<close> is nil returns no error
  and does nothing. A \<^verbatim>\<open>Close\<close> that succeeds closes the file and leaves the field
  pointing at the closed handle: a second \<^verbatim>\<open>Close\<close> returns the error of a closed
  file, and a subsequent \<^verbatim>\<open>Write\<close> opens no file, writes nothing, leaves the sink as
  it is and returns that error with a count of zero.
\<close>

theorem Close_leaves_closed_handle:
  "(file r = None \<longrightarrow> Close r w = (None, w))
   \<and> (file r = Some h \<and> h < length (handles w) \<and> fst (Close r w) = None \<longrightarrow>
        closed (handles (snd (Close r w)) ! h)
        \<and> fst (Close r (snd (Close r w))) = Some ErrClosed
        \<and> fst (Write clean r p (snd (Close r w))) = (0, Some ErrClosed)
        \<and> fst (snd (Write clean r p (snd (Close r w)))) = r
        \<and> files (snd (snd (Write clean r p (snd (Close r w))))) = files (snd (Close r w))
        \<and> handles (snd (snd (Write clean r p (snd (Close r w))))) = handles (snd (Close r w)))"
proof (intro conjI impI)
  assume "file r = None"
  then show "Close r w = (None, w)" by (simp add: Close_def)
next
  assume a: "file r = Some h \<and> h < length (handles w) \<and> fst (Close r w) = None"
  then have f: "file r = Some h" and v: "h < length (handles w)" and ok: "fst (Close r w) = None"
    by simp_all
  have c: "closed (handles (snd (Close r w)) ! h)" and l: "h < length (handles (snd (Close r w)))"
    using Close_result [OF f v ok] v by simp_all
  show "closed (handles (snd (Close r w)) ! h)" by (rule c)
  show "fst (Close r (snd (Close r w))) = Some ErrClosed"
    using Close_closed [OF f l c] by simp
  show "fst (Write clean r p (snd (Close r w))) = (0, Some ErrClosed)"
    by (rule Write_closed(1) [OF f l c])
  show "fst (snd (Write clean r p (snd (Close r w)))) = r"
    by (rule Write_closed(2) [OF f l c])
  show "files (snd (snd (Write clean r p (snd (Close r w))))) = files (snd (Close r w))"
    by (rule Write_closed(3) [OF f l c])
  show "handles (snd (snd (Write clean r p (snd (Close r w))))) = handles (snd (Close r w))"
    by (rule Write_closed(4) [OF f l c])
qed

theorem Close_leaves_closed_handle_witness:
  "file (newRotator ''logs'' True) = None
   \<and> Close (newRotator ''logs'' True) (emptyWorld (\<lambda>k. may 1) (\<lambda>k. False))
       = (None, emptyWorld (\<lambda>k. may 1) (\<lambda>k. False))
   \<and> file (fst (snd afterWrite)) = Some 0 \<and> 0 < length (handles (snd (snd afterWrite)))
   \<and> fst (Close (fst (snd afterWrite)) (snd (snd afterWrite))) = None
   \<and> fst (Write id (fst (snd afterWrite)) ''again''
             (snd (Close (fst (snd afterWrite)) (snd (snd afterWrite))))) = (0, Some ErrClosed)"
proof -
  have n: "file (newRotator ''logs'' True) = None" by (simp add: newRotator_def)
  have f: "file (fst (snd afterWrite)) = Some 0" by (rule afterWrite_eval)
  have v: "0 < length (handles (snd (snd afterWrite)))" by (simp add: afterWrite_eval)
  have ok: "fst (Close (fst (snd afterWrite)) (snd (snd afterWrite))) = None"
    using afterClose_eval by (simp add: afterClose_def)
  show ?thesis
    using n f v ok
      Close_leaves_closed_handle [of "newRotator ''logs'' True"
        "emptyWorld (\<lambda>k. may 1) (\<lambda>k. False)" 0 id "''x''"]
      Close_leaves_closed_handle [of "fst (snd afterWrite)" "snd (snd afterWrite)" 0 id "''again''"]
    by simp
qed

section \<open>The outcomes of a \<^verbatim>\<open>Write\<close>\<close>

lemma new_events_append: "trace w' = trace w @ es \<Longrightarrow> new_events w w' = es"
  by (simp add: new_events_def)

lemma new_events_trans:
  "trace w1 = trace w @ es \<Longrightarrow> trace w2 = trace w1 @ es' \<Longrightarrow> new_events w w2 = es @ es'"
  by (simp add: new_events_def)

subsection \<open>\<^verbatim>\<open>openNew\<close> ends in an open call\<close>

lemma openNew_ends_in_open:
  "\<exists>es. trace (snd (snd (openNew clean t r w))) = trace w @ es \<and> es \<noteq> [] \<and> is_open_call (last es)"
proof -
  obtain mk opn where
    "trace (snd (snd (openNew clean t r w))) =
       trace w @ [EvStat (path r)] @ (if mk then [EvMkdirAll (path r)] else [])
         @ (if opn then [EvOpenFile (filepath_Join clean (path r) (Format t @ ''.log''))] else [])"
    and "mk \<or> opn"
    using openNew_trace [of clean t r w] by blast
  then show ?thesis by (cases mk; cases opn) simp_all
qed

lemma openNew_dirs: "dirs w \<subseteq> dirs (snd (snd (openNew clean t r w)))"
  by (auto simp add: openNew_def os_Stat_def os_MkdirAll_def os_OpenFile_def Let_def
      split: prod.split option.split sum.split)


subsection \<open>How far \<^verbatim>\<open>rotate\<close> gets\<close>

lemma retired_simps [simp]:
  "h < length (handles w) \<Longrightarrow> trace (retired r h w) =
     trace w @ [EvSync h, EvClose h] @ (if compress r then [EvGo (fname (handles w ! h))] else [])"
  "files (retired r h w) = files w"
  "dirs (retired r h w) = dirs w"
  "clock (retired r h w) = clock w"
  "faults (retired r h w) = faults w"
  "short (retired r h w) = short w"
  "ticks (retired r h w) = Suc (ticks w)"
  "spawned (retired r h w) = spawned w @ (if compress r then [fname (handles w ! h)] else [])"
  "length (handles (retired r h w)) = length (handles w)"
  "h < length (handles w) \<Longrightarrow> closed (handles (retired r h w) ! h)"
  "fname (handles (retired r h w) ! i) = fname (handles w ! i)"
  "i \<noteq> h \<Longrightarrow> handles (retired r h w) ! i = handles w ! i"
  by (simp_all add: retired_def Let_def Sync_trace Close_trace valid_def Close_other)

lemma rotate_file_reaches_open:
  assumes "file r = Some h" "h < length (handles w)" "closes_ok h w"
  shows "rotate_file clean r w = openNew clean (clock w (ticks w)) r (retired r h w)"
  using assms
  by (simp add: rotate_file_def split_beta Sync_fst Close_fst Sync_trace valid_def fault_def
      closes_ok_def retired_def File_Name_def Let_def)

lemma rotate_file_stops:
  assumes "file r = Some h" "h < length (handles w)" "\<not> closes_ok h w"
  shows "fst (rotate_file clean r w) \<noteq> None" "fst (snd (rotate_file clean r w)) = r"
    "files (snd (snd (rotate_file clean r w))) = files w"
    "trace (snd (snd (rotate_file clean r w))) = trace w @ [EvSync h]
     \<or> trace (snd (snd (rotate_file clean r w))) = trace w @ [EvSync h, EvClose h]"
    "spawned (snd (snd (rotate_file clean r w))) = spawned w"
  using assms
  by (auto simp add: rotate_file_def split_beta Sync_fst Close_fst Sync_trace Close_trace valid_def
      fault_def closes_ok_def split: option.splits)

subsection \<open>The cases of \<^verbatim>\<open>Write\<close>\<close>

lemma Write_no_rotation:
  assumes "file r = Some h" "\<not> fst (needRotate r w)"
  shows "Write clean r p w =
           (fst (File_Write (Some h) p (snd (needRotate r w))), r,
            snd (File_Write (Some h) p (snd (needRotate r w))))"
  using assms by (simp add: Write_def split_beta Let_def)

lemma Write_rotation_fails:
  assumes "file r = Some h" "fst (needRotate r w)"
    and "fst (rotate_file clean r (snd (needRotate r w))) = Some e"
  shows "Write clean r p w =
           ((0, Some e), fst (snd (rotate_file clean r (snd (needRotate r w)))),
            snd (snd (rotate_file clean r (snd (needRotate r w)))))"
  using assms by (simp add: Write_def split_beta Let_def)

lemma Write_rotation_done:
  assumes "file r = Some h" "fst (needRotate r w)"
    and "fst (rotate_file clean r (snd (needRotate r w))) = None"
  shows "Write clean r p w =
           (fst (File_Write (file (fst (snd (rotate_file clean r (snd (needRotate r w))))))
                   p (snd (snd (rotate_file clean r (snd (needRotate r w)))))),
            fst (snd (rotate_file clean r (snd (needRotate r w)))),
            snd (File_Write (file (fst (snd (rotate_file clean r (snd (needRotate r w))))))
                   p (snd (snd (rotate_file clean r (snd (needRotate r w)))))))"
  using assms by (simp add: Write_def split_beta Let_def)

lemma Write_first_open_fails:
  assumes "file r = None" "fst (openNew clean (clock w (ticks w)) r (snd (Now w))) = Some e"
  shows "Write clean r p w =
           ((0, Some e), r\<lparr>date := clock w (ticks w)\<rparr>,
            snd (snd (openNew clean (clock w (ticks w)) r (snd (Now w)))))"
proof -
  obtain e1 r1 w1 where o: "openNew clean (clock w (ticks w)) r (snd (Now w)) = (e1, r1, w1)"
    by (metis prod_cases3)
  have "r1 = r\<lparr>date := clock w (ticks w)\<rparr>"
    using openNew_sink [of clean "clock w (ticks w)" r "snd (Now w)"] o assms(2) by simp
  then show ?thesis
    using assms o by (simp add: Write_def Now_def)
qed

lemma Write_first_open_done:
  assumes "file r = None" "fst (openNew clean (clock w (ticks w)) r (snd (Now w))) = None"
  shows "Write clean r p w =
           Write clean (r\<lparr>date := clock w (ticks w), file := Some (length (handles w))\<rparr>) p
             (snd (snd (openNew clean (clock w (ticks w)) r (snd (Now w)))))"
proof -
  obtain e1 r1 w1 where o: "openNew clean (clock w (ticks w)) r (snd (Now w)) = (e1, r1, w1)"
    by (metis prod_cases3)
  have "r1 = r\<lparr>date := clock w (ticks w), file := Some (length (handles w))\<rparr>"
    using openNew_sink [of clean "clock w (ticks w)" r "snd (Now w)"] o assms(2) by simp
  then show ?thesis
    using assms o by (simp add: Write_def Now_def)
qed

lemma Write_dangling:
  assumes "file r = Some h" "\<not> h < length (handles w)"
  shows "trace (snd (snd (Write clean r p w))) = trace w"
  using assms
  by (simp add: Write_def split_beta Let_def rotate_file_def File_Sync_def File_Write_def valid_def)

text \<open>The outcome of a \<^verbatim>\<open>Write\<close> on a sink that holds a file, by cases.\<close>

lemma Write_Some_cases:
  fixes clean :: "string \<Rightarrow> string" and r :: fileRotator and w :: world and h :: nat
  assumes f: "file r = Some h" and v: "h < length (handles w)"
  defines "wN \<equiv> snd (needRotate r w)"
  defines "Q \<equiv> openNew clean (clock w (ticks wN)) r (retired r h wN)"
  shows "(\<not> fst (needRotate r w) \<and> trace (snd (snd (Write clean r p w))) = trace w @ [EvWrite h p])
       \<or> (fst (needRotate r w) \<and> \<not> closes_ok h wN
            \<and> (trace (snd (snd (Write clean r p w))) = trace w @ [EvSync h]
               \<or> trace (snd (snd (Write clean r p w))) = trace w @ [EvSync h, EvClose h]))
       \<or> (fst (needRotate r w) \<and> closes_ok h wN \<and> fst Q = None
            \<and> (\<exists>es. trace (snd (snd (Write clean r p w))) = trace w @ es @ [EvWrite (length (handles w)) p]))
       \<or> (fst (needRotate r w) \<and> closes_ok h wN \<and> fst Q \<noteq> None
            \<and> Write clean r p w = ((0, fst Q), r\<lparr>date := clock w (ticks wN)\<rparr>, snd (snd Q)))"
proof (cases "fst (needRotate r w)")
  case False
  then show ?thesis
    using f v by (simp add: Write_no_rotation FWrite_trace valid_def)
next
  case need: True
  have vN: "h < length (handles wN)" using v by (simp add: wN_def)
  show ?thesis
  proof (cases "closes_ok h wN")
    case False
    note st = rotate_file_stops [OF f vN False, of clean]
    from st(1) obtain e where e: "fst (rotate_file clean r wN) = Some e" by auto
    have "snd (snd (Write clean r p w)) = snd (snd (rotate_file clean r wN))"
      using Write_rotation_fails [OF f need, of clean e p] e by (simp add: wN_def)
    then show ?thesis using need False st(4) by (simp add: wN_def)
  next
    case c: True
    have R: "rotate_file clean r wN = Q"
      using rotate_file_reaches_open [OF f vN c, of clean] by (simp add: Q_def wN_def)
    show ?thesis
    proof (cases "fst Q")
      case None
      have rs: "fst (snd Q) = r\<lparr>date := clock w (ticks wN), file := Some (length (handles w))\<rparr>"
        using None v by (simp add: Q_def openNew_sink wN_def)
      have hs: "length (handles w) < length (handles (snd (snd Q)))"
        using None v by (simp add: Q_def openNew_handles wN_def)
      obtain es0 where es0: "trace (snd (snd Q)) = trace (retired r h wN) @ es0"
        using openNew_ends_in_open [of clean "clock w (ticks wN)" r "retired r h wN"]
        by (auto simp: Q_def)
      have "snd (snd (Write clean r p w)) =
              snd (File_Write (Some (length (handles w))) p (snd (snd Q)))"
        using Write_rotation_done [OF f need, of clean p] None R rs by (simp add: wN_def)
      then have "trace (snd (snd (Write clean r p w))) =
          trace w @ ([EvSync h, EvClose h] @ (if compress r then [EvGo (fname (handles w ! h))] else []) @ es0)
            @ [EvWrite (length (handles w)) p]"
        using hs es0 vN by (simp add: FWrite_trace valid_def wN_def)
      then show ?thesis using need c None by blast
    next
      case (Some e)
      have "Write clean r p w = ((0, Some e), fst (snd Q), snd (snd Q))"
        using Write_rotation_fails [OF f need, of clean e p] Some R by (simp add: wN_def)
      moreover have "fst (snd Q) = r\<lparr>date := clock w (ticks wN)\<rparr>"
        using Some by (simp add: Q_def openNew_sink)
      ultimately show ?thesis using need c Some by simp
    qed
  qed
qed

lemma contents_files: "files a = files b \<Longrightarrow> contents n a = contents n b"
  by (simp add: contents_def)

lemma contents_Now [simp]: "contents n (snd (Now w)) = contents n w"
  by (simp add: contents_def)

lemma openNew_contents [simp]:
  "contents n (snd (snd (openNew clean t r w))) = contents n w"
  by (auto simp add: contents_def openNew_files split: option.splits fdata.splits)

lemma Write_Some_trace:
  assumes f: "file r = Some h" and v: "h < length (handles w)"
  shows "\<exists>es. trace (snd (snd (Write clean r p w))) = trace w @ es \<and> es \<noteq> []
          \<and> (is_open_call (last es) \<longrightarrow>
                fst (fst (Write clean r p w)) = 0 \<and> snd (fst (Write clean r p w)) \<noteq> None
                \<and> fst (snd (Write clean r p w))
                    = r\<lparr>date := clock w (ticks (snd (snd (Write clean r p w))) - 1)\<rparr>
                \<and> files (snd (snd (Write clean r p w))) = files w
                \<and> length (handles (snd (snd (Write clean r p w)))) = length (handles w)
                \<and> closed (handles (snd (snd (Write clean r p w))) ! h)
                \<and> \<not> closed (handles w ! h))"
proof -
  define wN where "wN = snd (needRotate r w)"
  define Q where "Q = openNew clean (clock w (ticks wN)) r (retired r h wN)"
  have vN: "h < length (handles wN)" using v by (simp add: wN_def)
  consider
    (a) "trace (snd (snd (Write clean r p w))) = trace w @ [EvWrite h p]"
  | (b) "trace (snd (snd (Write clean r p w))) = trace w @ [EvSync h]"
  | (c) "trace (snd (snd (Write clean r p w))) = trace w @ [EvSync h, EvClose h]"
  | (d) es where "trace (snd (snd (Write clean r p w))) = trace w @ es @ [EvWrite (length (handles w)) p]"
  | (e) "closes_ok h wN" "fst Q \<noteq> None"
      "Write clean r p w = ((0, fst Q), r\<lparr>date := clock w (ticks wN)\<rparr>, snd (snd Q))"
    using Write_Some_cases [OF f v, of clean p] unfolding wN_def Q_def by blast
  then show ?thesis
  proof cases
    case a then show ?thesis by simp
  next
    case b then show ?thesis by simp
  next
    case c then show ?thesis by simp
  next
    case d
    then have "trace (snd (snd (Write clean r p w))) = trace w @ (es @ [EvWrite (length (handles w)) p])
      \<and> es @ [EvWrite (length (handles w)) p] \<noteq> []
      \<and> \<not> is_open_call (last (es @ [EvWrite (length (handles w)) p]))" by simp
    then show ?thesis by blast
  next
    case e
    obtain es0 where es0: "trace (snd (snd Q)) = trace (retired r h wN) @ es0" "es0 \<noteq> []"
      using openNew_ends_in_open [of clean "clock w (ticks wN)" r "retired r h wN"]
      by (auto simp: Q_def)
    have tr: "trace (snd (snd (Write clean r p w))) =
        trace w @ ([EvSync h, EvClose h] @ (if compress r then [EvGo (fname (handles w ! h))] else []) @ es0)"
      using e(3) es0 vN by (simp add: wN_def)
    from e(2) obtain err where err: "fst Q = Some err" by auto
    have hs: "handles (snd (snd Q)) = handles (retired r h wN)"
      using err by (simp add: Q_def openNew_handles)
    have fs: "files (snd (snd Q)) = files w"
      using err by (simp add: Q_def openNew_files wN_def)
    have tk: "ticks (snd (snd Q)) = Suc (ticks wN)"
      by (simp add: Q_def)
    have nc: "\<not> closed (handles w ! h)"
      using e(1) by (simp add: closes_ok_def wN_def)
    have "fst (fst (Write clean r p w)) = 0 \<and> snd (fst (Write clean r p w)) \<noteq> None
                \<and> fst (snd (Write clean r p w))
                    = r\<lparr>date := clock w (ticks (snd (snd (Write clean r p w))) - 1)\<rparr>
                \<and> files (snd (snd (Write clean r p w))) = files w
                \<and> length (handles (snd (snd (Write clean r p w)))) = length (handles w)
                \<and> closed (handles (snd (snd (Write clean r p w))) ! h)
                \<and> \<not> closed (handles w ! h)"
      using err e(3) hs fs tk nc vN by (simp add: wN_def)
    with tr show ?thesis by blast
  qed
qed

lemmas sink_defs = Write_def openNew_def needRotate_def rotate_file_def Now_def os_Stat_def
  os_MkdirAll_def os_OpenFile_def File_Sync_def File_Close_def File_Write_def File_Name_def
  go_compressFile_def fault_def valid_def Let_def

lemma failedFirstWrite_eval:
  "fst failedFirstWrite = (0, Some ErrIO)"
  "date (fst (snd failedFirstWrite)) = may 1"
  "trace (snd (snd failedFirstWrite)) = [EvStat ''logs'', EvMkdirAll ''logs'']"
  "ticks (snd (snd failedFirstWrite)) = 1"
  by (simp_all add: failedFirstWrite_def newRotator_def emptyWorld_def sink_defs)

lemma failedRotation_eval:
  "fst failedRotation = (0, Some ErrIO)"
  "fst (snd failedRotation) = sinkMay1\<lparr>date := may 2\<rparr>"
  "length (handles (snd (snd failedRotation))) = 1"
  "closed (handles (snd (snd failedRotation)) ! 0)"
  "clock (snd (snd failedRotation)) = (\<lambda>k. may 2)"
  "trace (snd (snd failedRotation)) =
     [EvSync 0, EvClose 0, EvGo ''logs/2024_05_01.log'', EvStat ''logs'',
      EvOpenFile (filepath_Join id ''logs'' (Format (may 2) @ ''.log''))]"
  by (simp_all add: failedRotation_def sinkMay1_def worldMay2_def sink_defs may_def)

section \<open>Failures of opening\<close>

text \<open>
  Claim C7, amended. If the creation of the directory or the opening of the file fails
  during a \<^verbatim>\<open>Write\<close>, the call returns an error with a byte count of zero and no byte
  of the record is written; the sink keeps its directory and its compress flag and is
  left without an open file (its field \<^verbatim>\<open>file\<close> is nil or points at a closed handle);
  its stored date is overwritten with the time read for the attempt that failed.
\<close>

theorem Write_failed_open_overwrites_date:
  assumes e: "ended_in_open w (snd (snd (Write clean r p w)))"
  shows "fst (fst (Write clean r p w)) = 0 \<and> snd (fst (Write clean r p w)) \<noteq> None
       \<and> (\<forall>n. contents n (snd (snd (Write clean r p w))) = contents n w)
       \<and> path (fst (snd (Write clean r p w))) = path r
       \<and> compress (fst (snd (Write clean r p w))) = compress r
       \<and> date (fst (snd (Write clean r p w))) = clock w (ticks (snd (snd (Write clean r p w))) - 1)
       \<and> \<not> (valid (file (fst (snd (Write clean r p w)))) (snd (snd (Write clean r p w)))
             \<and> \<not> closed (handles (snd (snd (Write clean r p w)))
                            ! the (file (fst (snd (Write clean r p w))))))"
proof (cases "file r")
  case None
  define t where "t = clock w (ticks w)"
  define Q where "Q = openNew clean t r (snd (Now w))"
  show ?thesis
  proof (cases "fst Q")
    case (Some err)
    have W: "Write clean r p w = ((0, Some err), r\<lparr>date := t\<rparr>, snd (snd Q))"
      using Write_first_open_fails [OF None, of clean w err p] Some by (simp add: Q_def t_def)
    show ?thesis using None by (simp add: W Q_def t_def valid_def)
  next
    case ok: None
    define r1 where "r1 = r\<lparr>date := t, file := Some (length (handles w))\<rparr>"
    define w1 where "w1 = snd (snd Q)"
    have W: "Write clean r p w = Write clean r1 p w1"
      using Write_first_open_done [OF None, of clean w p] ok by (simp add: Q_def t_def r1_def w1_def)
    have f1: "file r1 = Some (length (handles w))" by (simp add: r1_def)
    have v1: "length (handles w) < length (handles w1)"
      using ok by (simp add: w1_def Q_def openNew_handles)
    obtain es1 where es1: "trace w1 = trace w @ es1"
      using openNew_ends_in_open [of clean t r "snd (Now w)"] by (auto simp: w1_def Q_def)
    obtain es where es: "trace (snd (snd (Write clean r1 p w1))) = trace w1 @ es" "es \<noteq> []"
      and imp: "is_open_call (last es) \<longrightarrow>
                fst (fst (Write clean r1 p w1)) = 0 \<and> snd (fst (Write clean r1 p w1)) \<noteq> None
                \<and> fst (snd (Write clean r1 p w1))
                    = r1\<lparr>date := clock w1 (ticks (snd (snd (Write clean r1 p w1))) - 1)\<rparr>
                \<and> files (snd (snd (Write clean r1 p w1))) = files w1
                \<and> length (handles (snd (snd (Write clean r1 p w1)))) = length (handles w1)
                \<and> closed (handles (snd (snd (Write clean r1 p w1))) ! length (handles w))
                \<and> \<not> closed (handles w1 ! length (handles w))"
      using Write_Some_trace [OF f1 v1, of clean p] by blast
    have "new_events w (snd (snd (Write clean r p w))) = es1 @ es"
      using es1 es(1) by (simp add: W new_events_def)
    then have "is_open_call (last es)" using e es(2) by (simp add: ended_in_open_def)
    with imp have c: "fst (fst (Write clean r1 p w1)) = 0" "snd (fst (Write clean r1 p w1)) \<noteq> None"
      "fst (snd (Write clean r1 p w1))
          = r1\<lparr>date := clock w1 (ticks (snd (snd (Write clean r1 p w1))) - 1)\<rparr>"
      "files (snd (snd (Write clean r1 p w1))) = files w1"
      "length (handles (snd (snd (Write clean r1 p w1)))) = length (handles w1)"
      "closed (handles (snd (snd (Write clean r1 p w1))) ! length (handles w))"
      by simp_all
    have ct: "\<forall>n. contents n (snd (snd (Write clean r1 p w1))) = contents n w"
      using contents_files [OF c(4)] by (simp add: w1_def Q_def)
    have ck: "clock w1 = clock w" by (simp add: w1_def Q_def)
    show ?thesis
      unfolding W using c ct ck by (simp add: r1_def valid_def)
  qed
next
  case (Some h)
  show ?thesis
  proof (cases "h < length (handles w)")
    case False
    have "new_events w (snd (snd (Write clean r p w))) = []"
      using Write_dangling [OF Some False, of clean p] by (simp add: new_events_def)
    with e show ?thesis by (simp add: ended_in_open_def)
  next
    case True
    obtain es where es: "trace (snd (snd (Write clean r p w))) = trace w @ es" "es \<noteq> []"
      and imp: "is_open_call (last es) \<longrightarrow>
                fst (fst (Write clean r p w)) = 0 \<and> snd (fst (Write clean r p w)) \<noteq> None
                \<and> fst (snd (Write clean r p w))
                    = r\<lparr>date := clock w (ticks (snd (snd (Write clean r p w))) - 1)\<rparr>
                \<and> files (snd (snd (Write clean r p w))) = files w
                \<and> length (handles (snd (snd (Write clean r p w)))) = length (handles w)
                \<and> closed (handles (snd (snd (Write clean r p w))) ! h)
                \<and> \<not> closed (handles w ! h)"
      using Write_Some_trace [OF Some True, of clean p] by blast
    have "new_events w (snd (snd (Write clean r p w))) = es"
      using es(1) by (simp add: new_events_def)
    then have "is_open_call (last es)" using e by (simp add: ended_in_open_def)
    with imp have c: "fst (fst (Write clean r p w)) = 0" "snd (fst (Write clean r p w)) \<noteq> None"
      "fst (snd (Write clean r p w))
          = r\<lparr>date := clock w (ticks (snd (snd (Write clean r p w))) - 1)\<rparr>"
      "files (snd (snd (Write clean r p w))) = files w"
      "length (handles (snd (snd (Write clean r p w)))) = length (handles w)"
      "closed (handles (snd (snd (Write clean r p w))) ! h)"
      by simp_all
    have "file (fst (snd (Write clean r p w))) = Some h"
      using c(3) Some by (metis fileRotator.select_convs(2) fileRotator.surjective fileRotator.update_convs(3))
    then show ?thesis
      using c Some by (simp add: contents_def valid_def) 
  qed
qed

theorem Write_failed_open_overwrites_date_witness:
  "ended_in_open (emptyWorld (\<lambda>k. may 1) (\<lambda>k. k = 1)) (snd (snd failedFirstWrite))
   \<and> fst (fst failedFirstWrite) = 0 \<and> snd (fst failedFirstWrite) \<noteq> None
   \<and> date (fst (snd failedFirstWrite)) = may 1"
proof -
  have e: "ended_in_open (emptyWorld (\<lambda>k. may 1) (\<lambda>k. k = 1)) (snd (snd failedFirstWrite))"
    by (simp add: ended_in_open_def new_events_def failedFirstWrite_eval emptyWorld_def)
  have c: "clock (emptyWorld (\<lambda>k. may 1) (\<lambda>k. k = 1)) = (\<lambda>k. may 1)"
    by (simp add: emptyWorld_def)
  from Write_failed_open_overwrites_date [OF e [unfolded failedFirstWrite_def],
      folded failedFirstWrite_def] e c
  show ?thesis by simp
qed

text \<open>
  Claim C7, as stated, fails where it says that the stored date is kept: \<^verbatim>\<open>openNew\<close>
  assigns \<^verbatim>\<open>r.date\<close> before it creates or opens anything. A new sink holds the zero
  time; after a first \<^verbatim>\<open>Write\<close> on May 1 that cannot create the directory it holds
  May 1.
\<close>

theorem failed_open_changes_date:
  "fst failedFirstWrite = (0, Some ErrIO)
   \<and> date (newRotator ''logs'' True) = zeroTime
   \<and> date (fst (snd failedFirstWrite)) = may 1 \<and> may 1 \<noteq> zeroTime"
  by (simp add: failedFirstWrite_eval) (simp add: newRotator_def may_def zeroTime_def)

text \<open>
  What a failed rotation leaves behind. If a rotation closes the old file and then fails
  to open the new one, that \<^verbatim>\<open>Write\<close> returns an error with a count of zero, having
  written nothing. \<^verbatim>\<open>rotate\<close> does not reset the field \<^verbatim>\<open>file\<close>, so the sink keeps the old
  handle, now closed, and the next \<^verbatim>\<open>Write\<close> skips \<^verbatim>\<open>openNew\<close>: it calls \<^verbatim>\<open>Sync\<close> or
  \<^verbatim>\<open>Write\<close> on the closed handle and returns the error of a closed file, whatever the
  state of the file system.
\<close>

lemma failed_rotation_strands_closed_handle:
  assumes f: "file r = Some h" and v: "h < length (handles w)"
    and e: "ended_in_open w (snd (snd (Write clean r p w)))"
  shows "fst (fst (Write clean r p w)) = 0 \<and> snd (fst (Write clean r p w)) \<noteq> None
       \<and> files (snd (snd (Write clean r p w))) = files w
       \<and> file (fst (snd (Write clean r p w))) = Some h
       \<and> \<not> closed (handles w ! h)
       \<and> closed (handles (snd (snd (Write clean r p w))) ! h)
       \<and> fst (Write clean (fst (snd (Write clean r p w))) q (snd (snd (Write clean r p w))))
           = (0, Some ErrClosed)
       \<and> fst (snd (Write clean (fst (snd (Write clean r p w))) q (snd (snd (Write clean r p w)))))
           = fst (snd (Write clean r p w))
       \<and> files (snd (snd (Write clean (fst (snd (Write clean r p w))) q
                               (snd (snd (Write clean r p w))))))
           = files (snd (snd (Write clean r p w)))
       \<and> new_events (snd (snd (Write clean r p w)))
            (snd (snd (Write clean (fst (snd (Write clean r p w))) q (snd (snd (Write clean r p w))))))
           = (if fst (needRotate (fst (snd (Write clean r p w))) (snd (snd (Write clean r p w))))
              then [EvSync h] else [EvWrite h q])"
proof -
  define r' where "r' = fst (snd (Write clean r p w))"
  define w' where "w' = snd (snd (Write clean r p w))"
  obtain es where es: "trace w' = trace w @ es" "es \<noteq> []"
    and imp: "is_open_call (last es) \<longrightarrow>
              fst (fst (Write clean r p w)) = 0 \<and> snd (fst (Write clean r p w)) \<noteq> None
              \<and> r' = r\<lparr>date := clock w (ticks w' - 1)\<rparr>
              \<and> files w' = files w
              \<and> length (handles w') = length (handles w)
              \<and> closed (handles w' ! h)
              \<and> \<not> closed (handles w ! h)"
    using Write_Some_trace [OF f v, of clean p] unfolding r'_def w'_def by blast
  have "new_events w w' = es" using es(1) by (simp add: new_events_def)
  then have "is_open_call (last es)" using e by (simp add: ended_in_open_def w'_def)
  with imp have c: "fst (fst (Write clean r p w)) = 0" "snd (fst (Write clean r p w)) \<noteq> None"
    "r' = r\<lparr>date := clock w (ticks w' - 1)\<rparr>" "files w' = files w"
    "length (handles w') = length (handles w)" "closed (handles w' ! h)" "\<not> closed (handles w ! h)"
    by simp_all
  have f': "file r' = Some h" using c(3) f by simp
  have v': "h < length (handles w')" using c(5) v by simp
  note nxt = Write_closed [OF f' v' c(6), of clean q]
  show ?thesis
    using c(1,2,4,6,7) f' nxt(1,2,3,5) unfolding r'_def w'_def by simp
qed

text \<open>
  The other path on which \<^verbatim>\<open>openNew\<close> can fail is the first \<^verbatim>\<open>Write\<close> of a sink, and
  there the failure is retried: the field \<^verbatim>\<open>file\<close> is still nil, so the next \<^verbatim>\<open>Write\<close>
  calls \<^verbatim>\<open>openNew\<close> again. A new sink whose first \<^verbatim>\<open>Write\<close> on May 1 cannot create the
  directory creates it, opens the file and writes the record at the next \<^verbatim>\<open>Write\<close>.
\<close>

lemma failed_first_open_is_retried:
  "fst failedFirstWrite = (0, Some ErrIO)
   \<and> file (fst (snd failedFirstWrite)) = None
   \<and> fst (Write id (fst (snd failedFirstWrite)) ''again'' (snd (snd failedFirstWrite)))
       = (5, None)
   \<and> new_events (snd (snd failedFirstWrite))
        (snd (snd (Write id (fst (snd failedFirstWrite)) ''again'' (snd (snd failedFirstWrite)))))
       = [EvStat ''logs'', EvMkdirAll ''logs'', EvOpenFile ''logs/2024_05_01.log'',
          EvWrite 0 ''again'']
   \<and> files (snd (snd (Write id (fst (snd failedFirstWrite)) ''again'' (snd (snd failedFirstWrite)))))
        ''logs/2024_05_01.log'' = Some (Raw ''again'')"
  by (simp add: failedFirstWrite_def newRotator_def emptyWorld_def sink_defs new_events_def
      appendTo_def filepath_Join_def Format_def appendInt_def digit_def may_def zeroTime_def)

text \<open>
  Claim C4: when a rotation closes the old file and fails to open the new one, that
  \<^verbatim>\<open>Write\<close> returns an error having written none of the bytes, and the next \<^verbatim>\<open>Write\<close>
  attempts to open a file for the current date and may succeed. The code does the first
  and not the second. On May 2 the sink of May 1 rotates and the new file cannot be
  opened (the call at position 4): the \<^verbatim>\<open>Write\<close> returns the error and leaves the sink
  holding the old handle, closed. No later call is made to fail, so a new attempt to
  open would succeed, yet the next \<^verbatim>\<open>Write\<close> opens nothing: its only call is a write to
  the closed handle, and it fails.
\<close>

theorem next_Write_after_failed_rotation_fails:
  "fst failedRotation = (0, Some ErrIO)
   \<and> file (fst (snd failedRotation)) = Some 0
   \<and> closed (handles (snd (snd failedRotation)) ! 0)
   \<and> fst (Write id (fst (snd failedRotation)) ''b'' (snd (snd failedRotation)))
       = (0, Some ErrClosed)
   \<and> new_events (snd (snd failedRotation))
        (snd (snd (Write id (fst (snd failedRotation)) ''b'' (snd (snd failedRotation)))))
       = [EvWrite 0 ''b'']"
proof -
  have f: "file (fst (snd failedRotation)) = Some 0"
    by (simp add: failedRotation_eval sinkMay1_def)
  have v: "0 < length (handles (snd (snd failedRotation)))"
    by (simp add: failedRotation_eval)
  have n: "\<not> fst (needRotate (fst (snd failedRotation)) (snd (snd failedRotation)))"
    by (simp add: needRotate_fst failedRotation_eval)
  show ?thesis
    using Write_closed(1,5) [OF f v failedRotation_eval(4), of id "''b''"] n f
    by (simp add: failedRotation_eval(1,4))
qed

section \<open>Rotation\<close>

subsection \<open>How many rotations\<close>

lemma syncs_Now [simp]: "syncs (snd (Now w)) = syncs w"
  by (simp add: syncs_def)




lemma calm_fault [simp]: "calm w \<Longrightarrow> faults w' = faults w \<Longrightarrow> \<not> fault w'"
  by (simp add: calm_def fault_def)

lemma FWrite_ok:
  assumes "h < length (handles w)" "\<not> closed (handles w ! h)" "\<not> fault w"
  shows "fst (File_Write (Some h) p w) = (length p, None)"
  using assms by (simp add: File_Write_def valid_def)






subsection \<open>The order of the calls\<close>

lemma closes_ok_needRotate [simp]: "closes_ok h (snd (needRotate r w)) = closes_ok h w"
  by (simp add: closes_ok_def)

lemma calm_needRotate [simp]: "calm (snd (needRotate r w)) = calm w"
  by (simp add: calm_def)

lemma rotate_file_sync_fails:
  assumes "file r = Some h" "h < length (handles w)"
    and "closed (handles w ! h) \<or> faults w (length (trace w))"
  shows "fst (rotate_file clean r w) \<noteq> None" "fst (snd (rotate_file clean r w)) = r"
    "snd (snd (rotate_file clean r w)) = emit (EvSync h) w"
  using assms
  by (auto simp add: rotate_file_def split_beta File_Sync_def valid_def fault_def)

lemma rotate_file_close_fails:
  assumes "file r = Some h" "h < length (handles w)"
    and "\<not> closed (handles w ! h)" "\<not> faults w (length (trace w))"
    and "faults w (Suc (length (trace w)))"
  shows "fst (rotate_file clean r w) \<noteq> None" "fst (snd (rotate_file clean r w)) = r"
    "trace (snd (snd (rotate_file clean r w))) = trace w @ [EvSync h, EvClose h]"
    "spawned (snd (snd (rotate_file clean r w))) = spawned w"
    "files (snd (snd (rotate_file clean r w))) = files w"
    "length (handles (snd (snd (rotate_file clean r w)))) = length (handles w)"
  using assms
  by (auto simp add: rotate_file_def split_beta Sync_fst Close_fst Sync_trace Close_trace valid_def
      fault_def split: option.splits)

lemma rotate_file_open_shape:
  assumes f: "file r = Some h" and v: "h < length (handles w)" and c: "closes_ok h w"
  shows "\<exists>mk opn. trace (snd (snd (rotate_file clean r w))) =
              trace w @ [EvSync h, EvClose h]
                @ (if compress r then [EvGo (fname (handles w ! h))] else [])
                @ [EvStat (path r)] @ (if mk then [EvMkdirAll (path r)] else [])
                @ (if opn then [EvOpenFile (filepath_Join clean (path r)
                      (Format (date (fst (snd (rotate_file clean r w)))) @ ''.log''))] else [])
              \<and> (fst (rotate_file clean r w) = None \<longrightarrow> opn)"
    and "closed (handles (snd (snd (rotate_file clean r w))) ! h)"
    and "spawned (snd (snd (rotate_file clean r w)))
               = spawned w @ (if compress r then [fname (handles w ! h)] else [])"
    and "fst (rotate_file clean r w) = None \<longrightarrow>
                 file (fst (snd (rotate_file clean r w))) = Some (length (handles w))
                 \<and> length (handles w) < length (handles (snd (snd (rotate_file clean r w))))"
    and "date (fst (snd (rotate_file clean r w))) = clock w (ticks w)"
proof -
  define t where "t = clock w (ticks w)"
  define Q where "Q = openNew clean t r (retired r h w)"
  have R: "rotate_file clean r w = Q"
    using rotate_file_reaches_open [OF f v c, of clean] by (simp add: Q_def t_def)
  obtain mk opn where tr: "trace (snd (snd Q)) =
       trace (retired r h w) @ [EvStat (path r)] @ (if mk then [EvMkdirAll (path r)] else [])
         @ (if opn then [EvOpenFile (filepath_Join clean (path r) (Format t @ ''.log''))] else [])"
    and o: "fst Q = None \<longrightarrow> opn"
    using openNew_trace [of clean t r "retired r h w", folded Q_def] by (elim exE conjE) (rule that)
  have d: "date (fst (snd Q)) = t" by (simp add: Q_def openNew_sink)
  show "date (fst (snd (rotate_file clean r w))) = clock w (ticks w)"
    using d by (simp add: R t_def)
  show "closed (handles (snd (snd (rotate_file clean r w))) ! h)"
    using v by (simp add: R Q_def openNew_handles nth_append)
  show "spawned (snd (snd (rotate_file clean r w)))
               = spawned w @ (if compress r then [fname (handles w ! h)] else [])"
    by (simp add: R Q_def)
  show "fst (rotate_file clean r w) = None \<longrightarrow>
                 file (fst (snd (rotate_file clean r w))) = Some (length (handles w))
                 \<and> length (handles w) < length (handles (snd (snd (rotate_file clean r w))))"
    by (simp add: R Q_def openNew_sink openNew_handles)
  have ex: "\<exists>mk opn. trace (snd (snd Q)) =
              trace w @ [EvSync h, EvClose h]
                @ (if compress r then [EvGo (fname (handles w ! h))] else [])
                @ [EvStat (path r)] @ (if mk then [EvMkdirAll (path r)] else [])
                @ (if opn then [EvOpenFile (filepath_Join clean (path r)
                      (Format (date (fst (snd Q))) @ ''.log''))] else [])
              \<and> (fst Q = None \<longrightarrow> opn)"
    using tr o v d by (intro exI [of _ mk] exI [of _ opn]) simp
  show "\<exists>mk opn. trace (snd (snd (rotate_file clean r w))) =
              trace w @ [EvSync h, EvClose h]
                @ (if compress r then [EvGo (fname (handles w ! h))] else [])
                @ [EvStat (path r)] @ (if mk then [EvMkdirAll (path r)] else [])
                @ (if opn then [EvOpenFile (filepath_Join clean (path r)
                      (Format (date (fst (snd (rotate_file clean r w)))) @ ''.log''))] else [])
              \<and> (fst (rotate_file clean r w) = None \<longrightarrow> opn)"
    unfolding R by (rule ex)
qed

lemma openNew_calm_exact:
  assumes "calm w" "path r \<in> dirs w"
  shows "fst (openNew clean t r w) = None"
    and "trace (snd (snd (openNew clean t r w))) =
           trace w @ [EvStat (path r), EvOpenFile (filepath_Join clean (path r) (Format t @ ''.log''))]"
  using assms
  by (simp_all add: openNew_def os_Stat_def os_MkdirAll_def os_OpenFile_def Let_def calm_def fault_def
      split: prod.split option.split sum.split)


lemma Write_sync_fails:
  assumes f: "file r = Some h" and v: "h < length (handles w)" and need: "fst (needRotate r w)"
    and s: "closed (handles w ! h) \<or> faults w (length (trace w))"
  shows "fst (fst (Write clean r p w)) = 0" "snd (fst (Write clean r p w)) \<noteq> None"
    "fst (snd (Write clean r p w)) = r"
    "trace (snd (snd (Write clean r p w))) = trace w @ [EvSync h]"
    "handles (snd (snd (Write clean r p w))) = handles w"
    "spawned (snd (snd (Write clean r p w))) = spawned w"
    "files (snd (snd (Write clean r p w))) = files w"
proof -
  define wN where "wN = snd (needRotate r w)"
  have vN: "h < length (handles wN)" using v by (simp add: wN_def)
  have sN: "closed (handles wN ! h) \<or> faults wN (length (trace wN))" using s by (simp add: wN_def)
  note st = rotate_file_sync_fails [OF f vN sN, of clean]
  from st(1) obtain e where e: "fst (rotate_file clean r wN) = Some e" by auto
  have W: "Write clean r p w = ((0, Some e), r, emit (EvSync h) wN)"
    using Write_rotation_fails [OF f need, of clean e p] e st(2,3) by (simp add: wN_def prod_eq_iff)
  show "fst (fst (Write clean r p w)) = 0" "snd (fst (Write clean r p w)) \<noteq> None"
    "fst (snd (Write clean r p w)) = r"
    "trace (snd (snd (Write clean r p w))) = trace w @ [EvSync h]"
    "handles (snd (snd (Write clean r p w))) = handles w"
    "spawned (snd (snd (Write clean r p w))) = spawned w"
    "files (snd (snd (Write clean r p w))) = files w"
    by (simp_all add: W wN_def)
qed

lemma Write_close_fails:
  assumes f: "file r = Some h" and v: "h < length (handles w)" and need: "fst (needRotate r w)"
    and s: "\<not> closed (handles w ! h)" "\<not> faults w (length (trace w))"
           "faults w (Suc (length (trace w)))"
  shows "fst (fst (Write clean r p w)) = 0" "snd (fst (Write clean r p w)) \<noteq> None"
    "fst (snd (Write clean r p w)) = r"
    "trace (snd (snd (Write clean r p w))) = trace w @ [EvSync h, EvClose h]"
    "length (handles (snd (snd (Write clean r p w)))) = length (handles w)"
    "spawned (snd (snd (Write clean r p w))) = spawned w"
    "files (snd (snd (Write clean r p w))) = files w"
proof -
  define wN where "wN = snd (needRotate r w)"
  have vN: "h < length (handles wN)" using v by (simp add: wN_def)
  have sN: "\<not> closed (handles wN ! h)" "\<not> faults wN (length (trace wN))"
           "faults wN (Suc (length (trace wN)))" using s by (simp_all add: wN_def)
  note st = rotate_file_close_fails [OF f vN sN, of clean]
  from st(1) obtain e where e: "fst (rotate_file clean r wN) = Some e" by auto
  have W: "Write clean r p w = ((0, Some e), r, snd (snd (rotate_file clean r wN)))"
    using Write_rotation_fails [OF f need, of clean e p] e st(2) by (simp add: wN_def prod_eq_iff)
  show "fst (fst (Write clean r p w)) = 0" "snd (fst (Write clean r p w)) \<noteq> None"
    "fst (snd (Write clean r p w)) = r"
    "trace (snd (snd (Write clean r p w))) = trace w @ [EvSync h, EvClose h]"
    "length (handles (snd (snd (Write clean r p w)))) = length (handles w)"
    "spawned (snd (snd (Write clean r p w))) = spawned w"
    "files (snd (snd (Write clean r p w))) = files w"
    using st(3-) by (simp_all add: W wN_def)
qed

lemma Write_reaches_open:
  assumes f: "file r = Some h" and v: "h < length (handles w)" and need: "fst (needRotate r w)"
    and c: "closes_ok h w"
  shows "\<exists>mk opn wr. trace (snd (snd (Write clean r p w))) = trace w @ [EvSync h, EvClose h]
                @ (if compress r then [EvGo (fname (handles w ! h))] else [])
                @ [EvStat (path r)] @ (if mk then [EvMkdirAll (path r)] else [])
                @ (if opn then [EvOpenFile (filepath_Join clean (path r)
                      (Format (date (fst (snd (Write clean r p w)))) @ ''.log''))] else [])
                @ (if wr then [EvWrite (length (handles w)) p] else [])
              \<and> (wr \<longrightarrow> opn)
              \<and> (wr \<longleftrightarrow> file (fst (snd (Write clean r p w))) = Some (length (handles w)))"
    and "closed (handles (snd (snd (Write clean r p w))) ! h)"
    and "spawned (snd (snd (Write clean r p w)))
                = spawned w @ (if compress r then [fname (handles w ! h)] else [])"
    and "date (fst (snd (Write clean r p w))) = clock w (ticks (snd (needRotate r w)))"
proof -
  define wN where "wN = snd (needRotate r w)"
  define R where "R = rotate_file clean r wN"
  have vN: "h < length (handles wN)" using v by (simp add: wN_def)
  have cN: "closes_ok h wN" using c by (simp add: wN_def)
  have tN: "trace wN = trace w" "spawned wN = spawned w" "handles wN = handles w"
    "clock wN = clock w"
    by (simp_all add: wN_def)
  note shape = rotate_file_open_shape [OF f vN cN, of clean, folded R_def, unfolded tN]
  from shape(1) obtain mk opn where a: "trace (snd (snd R)) = trace w @ [EvSync h, EvClose h]
                @ (if compress r then [EvGo (fname (handles w ! h))] else [])
                @ [EvStat (path r)] @ (if mk then [EvMkdirAll (path r)] else [])
                @ (if opn then [EvOpenFile (filepath_Join clean (path r)
                      (Format (date (fst (snd R))) @ ''.log''))] else [])"
      and o: "fst R = None \<longrightarrow> opn"
    by (elim exE conjE) (rule that)
  have hn: "h \<noteq> length (handles w)" using v by simp
  have all: "(\<exists>mk opn wr. trace (snd (snd (Write clean r p w))) = trace w @ [EvSync h, EvClose h]
                @ (if compress r then [EvGo (fname (handles w ! h))] else [])
                @ [EvStat (path r)] @ (if mk then [EvMkdirAll (path r)] else [])
                @ (if opn then [EvOpenFile (filepath_Join clean (path r)
                      (Format (date (fst (snd (Write clean r p w)))) @ ''.log''))] else [])
                @ (if wr then [EvWrite (length (handles w)) p] else [])
              \<and> (wr \<longrightarrow> opn)
              \<and> (wr \<longleftrightarrow> file (fst (snd (Write clean r p w))) = Some (length (handles w))))
     \<and> closed (handles (snd (snd (Write clean r p w))) ! h)
     \<and> spawned (snd (snd (Write clean r p w)))
                = spawned w @ (if compress r then [fname (handles w ! h)] else [])
     \<and> date (fst (snd (Write clean r p w))) = clock w (ticks wN)"
  proof (cases "fst R")
    case (Some e)
    have W: "Write clean r p w = ((0, Some e), fst (snd R), snd (snd R))"
      using Write_rotation_fails [OF f need, of clean e p] Some by (simp add: R_def wN_def prod_eq_iff)
    have rr: "fst (snd R) = r\<lparr>date := clock wN (ticks wN)\<rparr>"
      using rotate_file_reaches_open [OF f vN cN, of clean] Some
      by (simp add: R_def openNew_sink)
    have nf: "file (fst (snd R)) \<noteq> Some (length (handles w))"
      using f hn by (simp add: rr)
    have tr: "trace (snd (snd (Write clean r p w))) = trace w @ [EvSync h, EvClose h]
                @ (if compress r then [EvGo (fname (handles w ! h))] else [])
                @ [EvStat (path r)] @ (if mk then [EvMkdirAll (path r)] else [])
                @ (if opn then [EvOpenFile (filepath_Join clean (path r)
                      (Format (date (fst (snd (Write clean r p w)))) @ ''.log''))] else [])
                @ (if False then [EvWrite (length (handles w)) p] else [])
              \<and> (False \<longrightarrow> opn)
              \<and> (False \<longleftrightarrow> file (fst (snd (Write clean r p w))) = Some (length (handles w)))"
      using a nf by (simp add: W)
    have ex: "\<exists>mk opn wr. trace (snd (snd (Write clean r p w))) = trace w @ [EvSync h, EvClose h]
                @ (if compress r then [EvGo (fname (handles w ! h))] else [])
                @ [EvStat (path r)] @ (if mk then [EvMkdirAll (path r)] else [])
                @ (if opn then [EvOpenFile (filepath_Join clean (path r)
                      (Format (date (fst (snd (Write clean r p w)))) @ ''.log''))] else [])
                @ (if wr then [EvWrite (length (handles w)) p] else [])
              \<and> (wr \<longrightarrow> opn)
              \<and> (wr \<longleftrightarrow> file (fst (snd (Write clean r p w))) = Some (length (handles w)))"
      by (rule exI [of _ mk], rule exI [of _ opn], rule exI [of _ False]) (rule tr)
    show ?thesis
      using ex shape(2,3,5) by (simp add: W)
  next
    case None
    have b: "file (fst (snd R)) = Some (length (handles w))"
        "length (handles w) < length (handles (snd (snd R)))" "opn"
      using shape(4) o None by simp_all
    have W: "Write clean r p w =
       (fst (File_Write (Some (length (handles w))) p (snd (snd R))), fst (snd R),
        snd (File_Write (Some (length (handles w))) p (snd (snd R))))"
      using Write_rotation_done [OF f need, of clean p] None b(1) by (simp add: R_def wN_def)
    have tr: "trace (snd (snd (Write clean r p w))) = trace w @ [EvSync h, EvClose h]
                @ (if compress r then [EvGo (fname (handles w ! h))] else [])
                @ [EvStat (path r)] @ (if mk then [EvMkdirAll (path r)] else [])
                @ (if opn then [EvOpenFile (filepath_Join clean (path r)
                      (Format (date (fst (snd (Write clean r p w)))) @ ''.log''))] else [])
                @ (if True then [EvWrite (length (handles w)) p] else [])
              \<and> (True \<longrightarrow> opn)
              \<and> (True \<longleftrightarrow> file (fst (snd (Write clean r p w))) = Some (length (handles w)))"
      using a b by (simp add: W FWrite_trace valid_def)
    have ex: "\<exists>mk opn wr. trace (snd (snd (Write clean r p w))) = trace w @ [EvSync h, EvClose h]
                @ (if compress r then [EvGo (fname (handles w ! h))] else [])
                @ [EvStat (path r)] @ (if mk then [EvMkdirAll (path r)] else [])
                @ (if opn then [EvOpenFile (filepath_Join clean (path r)
                      (Format (date (fst (snd (Write clean r p w)))) @ ''.log''))] else [])
                @ (if wr then [EvWrite (length (handles w)) p] else [])
              \<and> (wr \<longrightarrow> opn)
              \<and> (wr \<longleftrightarrow> file (fst (snd (Write clean r p w))) = Some (length (handles w)))"
      by (rule exI [of _ mk], rule exI [of _ opn], rule exI [of _ True]) (rule tr)
    show ?thesis
      using ex shape(2,3,5) by (simp add: W)
  qed
  then show "\<exists>mk opn wr. trace (snd (snd (Write clean r p w))) = trace w @ [EvSync h, EvClose h]
                @ (if compress r then [EvGo (fname (handles w ! h))] else [])
                @ [EvStat (path r)] @ (if mk then [EvMkdirAll (path r)] else [])
                @ (if opn then [EvOpenFile (filepath_Join clean (path r)
                      (Format (date (fst (snd (Write clean r p w)))) @ ''.log''))] else [])
                @ (if wr then [EvWrite (length (handles w)) p] else [])
              \<and> (wr \<longrightarrow> opn)
              \<and> (wr \<longleftrightarrow> file (fst (snd (Write clean r p w))) = Some (length (handles w)))"
    and "closed (handles (snd (snd (Write clean r p w))) ! h)"
    and "spawned (snd (snd (Write clean r p w)))
                = spawned w @ (if compress r then [fname (handles w ! h)] else [])"
    and "date (fst (snd (Write clean r p w))) = clock w (ticks (snd (needRotate r w)))"
    by (simp_all add: wN_def)
qed


lemma FWrite_files_ok:
  assumes "h < length (handles w)" "\<not> closed (handles w ! h)" "\<not> fault w"
  shows "files (snd (File_Write (Some h) p w)) = appendTo (fname (handles w ! h)) p (files w)"
  using assms by (simp add: File_Write_def valid_def)

lemma Write_rotation_calm:
  fixes clean :: "string \<Rightarrow> string" and r :: fileRotator and w :: world
  assumes f: "file r = Some h" and v: "h < length (handles w)" and need: "fst (needRotate r w)"
    and o: "\<not> closed (handles w ! h)" and c: "calm w" and d: "path r \<in> dirs w"
  defines "fn \<equiv> filepath_Join clean (path r)
                  (Format (clock w (ticks (snd (needRotate r w)))) @ ''.log'')"
  shows "fst (Write clean r p w) = (length p, None)"
    and "fst (snd (Write clean r p w))
           = r\<lparr>date := clock w (ticks (snd (needRotate r w))), file := Some (length (handles w))\<rparr>"
    and "trace (snd (snd (Write clean r p w))) = trace w @ [EvSync h, EvClose h]
           @ (if compress r then [EvGo (fname (handles w ! h))] else [])
           @ [EvStat (path r), EvOpenFile fn, EvWrite (length (handles w)) p]"
    and "spawned (snd (snd (Write clean r p w)))
           = spawned w @ (if compress r then [fname (handles w ! h)] else [])"
    and "length (handles (snd (snd (Write clean r p w)))) = Suc (length (handles w))"
    and "handles (snd (snd (Write clean r p w))) ! length (handles w)
           = \<lparr>fname = fn, closed = False\<rparr>"
    and "closed (handles (snd (snd (Write clean r p w))) ! h)"
    and "files (snd (snd (Write clean r p w)))
           = appendTo fn p (if fn \<in> dom (files w) then files w else (files w)(fn \<mapsto> Raw []))"
proof -
  define wN where "wN = snd (needRotate r w)"
  define t where "t = clock w (ticks wN)"
  define Q where "Q = openNew clean t r (retired r h wN)"
  have fn: "fn = filepath_Join clean (path r) (Format t @ ''.log'')"
    by (simp add: fn_def t_def wN_def)
  have vN: "h < length (handles wN)" using v by (simp add: wN_def)
  have ck: "closes_ok h wN" using o c by (simp add: closes_ok_def wN_def calm_def)
  have R: "rotate_file clean r wN = Q"
    using rotate_file_reaches_open [OF f vN ck, of clean] by (simp add: Q_def t_def wN_def)
  have cr: "calm (retired r h wN)" using c by (simp add: calm_def wN_def)
  have dr: "path r \<in> dirs (retired r h wN)" using d by (simp add: wN_def)
  have ok: "fst Q = None"
    unfolding Q_def by (rule openNew_calm_exact(1) [OF cr dr])
  have tq: "trace (snd (snd Q)) = trace w @ [EvSync h, EvClose h]
           @ (if compress r then [EvGo (fname (handles w ! h))] else [])
           @ [EvStat (path r), EvOpenFile fn]"
    unfolding Q_def using openNew_calm_exact(2) [OF cr dr, of clean t] vN
    by (simp add: fn wN_def)
  have rs: "fst (snd Q) = r\<lparr>date := t, file := Some (length (handles w))\<rparr>"
    using ok by (simp add: Q_def openNew_sink wN_def)
  have hs: "handles (snd (snd Q)) = handles (retired r h wN) @ [\<lparr>fname = fn, closed = False\<rparr>]"
    using ok by (simp add: Q_def openNew_handles fn)
  have ln: "length (handles wN) = length (handles w)" by (simp add: wN_def)
  have fq: "files (snd (snd Q)) = (if fn \<in> dom (files w) then files w else (files w)(fn \<mapsto> Raw []))"
    using ok by (simp add: Q_def openNew_files wN_def fn)
  have nf: "\<not> fault (snd (snd Q))"
    by (rule calm_fault [OF c]) (simp add: Q_def wN_def)
  have vq: "length (handles w) < length (handles (snd (snd Q)))" by (simp add: hs ln)
  have oq: "\<not> closed (handles (snd (snd Q)) ! length (handles w))"
    by (simp add: hs ln nth_append)
  have nq: "fname (handles (snd (snd Q)) ! length (handles w)) = fn"
    by (simp add: hs ln nth_append)
  have W: "Write clean r p w =
       (fst (File_Write (Some (length (handles w))) p (snd (snd Q))), fst (snd Q),
        snd (File_Write (Some (length (handles w))) p (snd (snd Q))))"
    using Write_rotation_done [OF f need, of clean p] ok R rs by (simp add: wN_def)
  have fw: "fst (File_Write (Some (length (handles w))) p (snd (snd Q))) = (length p, None)"
    by (rule FWrite_ok [OF vq oq nf])
  have hw: "handles (snd (File_Write (Some (length (handles w))) p (snd (snd Q))))
              = handles (snd (snd Q))"
    by (simp add: File_Write_def Let_def)
  show "fst (Write clean r p w) = (length p, None)" by (simp add: W fw)
  show "fst (snd (Write clean r p w))
           = r\<lparr>date := clock w (ticks (snd (needRotate r w))), file := Some (length (handles w))\<rparr>"
    by (simp add: W rs t_def wN_def)
  show "trace (snd (snd (Write clean r p w))) = trace w @ [EvSync h, EvClose h]
           @ (if compress r then [EvGo (fname (handles w ! h))] else [])
           @ [EvStat (path r), EvOpenFile fn, EvWrite (length (handles w)) p]"
    using vq by (simp add: W FWrite_trace valid_def tq)
  show "spawned (snd (snd (Write clean r p w)))
           = spawned w @ (if compress r then [fname (handles w ! h)] else [])"
    by (simp add: W Q_def wN_def)
  show "length (handles (snd (snd (Write clean r p w)))) = Suc (length (handles w))"
    by (simp add: W hw hs ln)
  show "handles (snd (snd (Write clean r p w))) ! length (handles w)
           = \<lparr>fname = fn, closed = False\<rparr>"
    by (simp add: W hw hs ln nth_append)
  show "closed (handles (snd (snd (Write clean r p w))) ! h)"
    using vN by (simp add: W hw hs nth_append)
  show "files (snd (snd (Write clean r p w)))
           = appendTo fn p (if fn \<in> dom (files w) then files w else (files w)(fn \<mapsto> Raw []))"
    using FWrite_files_ok [OF vq oq nf, of p] by (simp add: W nq fq)
qed

lemma one_date_needRotate:
  assumes "one_date w today"
  shows "fst (needRotate r w) = (ymd (date r) \<noteq> today)"
    and "ymd (clock w (ticks (snd (needRotate r w)))) = today"
proof -
  have k: "ymd (clock w (ticks w + k)) = today" if "k < 4" for k
    using assms that by (simp add: one_date_def)
  have rd: "ymd (clock w (ticks w)) = today" "ymd (clock w (Suc (ticks w))) = today"
    "ymd (clock w (Suc (Suc (ticks w)))) = today" "ymd (clock w (Suc (Suc (Suc (ticks w))))) = today"
    using k [of 0] k [of 1] k [of 2] k [of 3] by (simp_all add: numeral_3_eq_3)
  show "fst (needRotate r w) = (ymd (date r) \<noteq> today)"
    using rd by (auto simp add: needRotate_fst ymd_def)
  show "ymd (clock w (ticks (snd (needRotate r w)))) = today"
    using rd by (simp add: needRotate_def Now_def Let_def)
qed

lemma FWrite_frame [simp]:
  "handles (snd (File_Write f p w)) = handles w"
  "spawned (snd (File_Write f p w)) = spawned w"
  by (simp_all add: File_Write_def Let_def)

lemma Format_may2: "Format (may 2) = ''2024_05_02''"
  by (simp add: Format_def appendInt_def may_def digit_def)

lemma Join_may2: "filepath_Join id ''logs'' (Format (may 2) @ ''.log'') = ''logs/2024_05_02.log''"
  by (simp only: Format_may2 filepath_Join_def) simp

lemma worldMay2_simps [simp]:
  "clock (worldMay2 fl) = (\<lambda>k. may 2)" "ticks (worldMay2 fl) = 0" "faults (worldMay2 fl) = fl"
  "dirs (worldMay2 fl) = {''logs''}" "trace (worldMay2 fl) = []" "spawned (worldMay2 fl) = []"
  "handles (worldMay2 fl) = [\<lparr>fname = ''logs/2024_05_01.log'', closed = False\<rparr>]"
  "files (worldMay2 fl) = [''logs/2024_05_01.log'' \<mapsto> Raw ''old'']"
  by (simp_all add: worldMay2_def)

lemma sinkMay1_simps [simp]:
  "path sinkMay1 = ''logs''" "file sinkMay1 = Some 0" "date sinkMay1 = may 1"
  "compress sinkMay1 = True"
  by (simp_all add: sinkMay1_def)

lemma needRotate_May2 [simp]: "fst (needRotate sinkMay1 (worldMay2 fl))"
  by (simp add: needRotate_fst may_def)

lemma afterWrite_state:
  "date (fst (snd afterWrite)) = may 1"
  "clock (snd (snd afterWrite)) = (\<lambda>k. may 1)"
  by (simp_all add: afterWrite_def newRotator_def emptyWorld_def sink_defs zeroTime_def may_def)

text \<open>
  Claim C5. A \<^verbatim>\<open>Write\<close> that rotates makes its calls in this order, and stops early only
  at a call that fails. \<^verbatim>\<open>Sync\<close> of the current handle comes first; when it fails (the
  file is closed already, or the call is made to fail) nothing else is called. \<^verbatim>\<open>Close\<close>
  of that handle comes second; when it fails nothing is started and nothing is opened.
  When both succeed the handle is closed, and the calls go on: only when \<^verbatim>\<open>compress\<close> is
  set, the start of the worker on the name of the handle just closed; then the calls of
  \<^verbatim>\<open>openNew\<close>, of which \<^verbatim>\<open>OpenFile\<close> is the last; then, only after \<^verbatim>\<open>OpenFile\<close>, the write
  of the record, which goes to the new handle. When no call fails and the directory
  exists, the calls are exactly \<^verbatim>\<open>Sync\<close>, \<^verbatim>\<open>Close\<close>, the start of the worker if
  \<^verbatim>\<open>compress\<close> is set, \<^verbatim>\<open>Stat\<close>, \<^verbatim>\<open>OpenFile\<close> and the write; the record is written whole
  to the new file, and the call returns with the worker started and none of the
  worker's calls made: the old file is still there, unchanged, and no archive exists
  that did not exist before.
\<close>

theorem rotating_Write_closes_before_opening:
  assumes f: "file r = Some h" and v: "h < length (handles w)" and need: "fst (needRotate r w)"
  shows "(closed (handles w ! h) \<or> faults w (length (trace w)) \<longrightarrow>
            trace (snd (snd (Write clean r p w))) = trace w @ [EvSync h]
            \<and> snd (fst (Write clean r p w)) \<noteq> None
            \<and> fst (snd (Write clean r p w)) = r
            \<and> handles (snd (snd (Write clean r p w))) = handles w
            \<and> spawned (snd (snd (Write clean r p w))) = spawned w
            \<and> files (snd (snd (Write clean r p w))) = files w)
       \<and> (\<not> closed (handles w ! h) \<and> \<not> faults w (length (trace w))
            \<and> faults w (Suc (length (trace w))) \<longrightarrow>
            trace (snd (snd (Write clean r p w))) = trace w @ [EvSync h, EvClose h]
            \<and> snd (fst (Write clean r p w)) \<noteq> None
            \<and> fst (snd (Write clean r p w)) = r
            \<and> length (handles (snd (snd (Write clean r p w)))) = length (handles w)
            \<and> spawned (snd (snd (Write clean r p w))) = spawned w
            \<and> files (snd (snd (Write clean r p w))) = files w)
       \<and> (closes_ok h w \<longrightarrow>
            (\<exists>mk opn wr. trace (snd (snd (Write clean r p w))) = trace w @ [EvSync h, EvClose h]
                @ (if compress r then [EvGo (fname (handles w ! h))] else [])
                @ [EvStat (path r)] @ (if mk then [EvMkdirAll (path r)] else [])
                @ (if opn then [EvOpenFile (filepath_Join clean (path r)
                      (Format (date (fst (snd (Write clean r p w)))) @ ''.log''))] else [])
                @ (if wr then [EvWrite (length (handles w)) p] else [])
              \<and> (wr \<longrightarrow> opn)
              \<and> (wr \<longleftrightarrow> file (fst (snd (Write clean r p w))) = Some (length (handles w))))
            \<and> closed (handles (snd (snd (Write clean r p w))) ! h)
            \<and> spawned (snd (snd (Write clean r p w)))
                = spawned w @ (if compress r then [fname (handles w ! h)] else [])
            \<and> date (fst (snd (Write clean r p w))) = clock w (ticks (snd (needRotate r w))))
       \<and> (\<not> closed (handles w ! h) \<and> calm w \<and> path r \<in> dirs w \<longrightarrow>
            fst (Write clean r p w) = (length p, None)
            \<and> trace (snd (snd (Write clean r p w))) = trace w @ [EvSync h, EvClose h]
                @ (if compress r then [EvGo (fname (handles w ! h))] else [])
                @ [EvStat (path r),
                   EvOpenFile (filepath_Join clean (path r)
                      (Format (date (fst (snd (Write clean r p w)))) @ ''.log'')),
                   EvWrite (length (handles w)) p]
            \<and> file (fst (snd (Write clean r p w))) = Some (length (handles w))
            \<and> handles (snd (snd (Write clean r p w))) ! length (handles w)
                = \<lparr>fname = filepath_Join clean (path r)
                      (Format (date (fst (snd (Write clean r p w)))) @ ''.log''), closed = False\<rparr>
            \<and> closed (handles (snd (snd (Write clean r p w))) ! h)
            \<and> spawned (snd (snd (Write clean r p w)))
                = spawned w @ (if compress r then [fname (handles w ! h)] else [])
            \<and> files (snd (snd (Write clean r p w)))
                = appendTo (filepath_Join clean (path r)
                      (Format (date (fst (snd (Write clean r p w)))) @ ''.log'')) p
                    (if filepath_Join clean (path r)
                          (Format (date (fst (snd (Write clean r p w)))) @ ''.log'') \<in> dom (files w)
                     then files w
                     else (files w)(filepath_Join clean (path r)
                          (Format (date (fst (snd (Write clean r p w)))) @ ''.log'') \<mapsto> Raw [])))"
proof (intro conjI impI)
  assume s: "closed (handles w ! h) \<or> faults w (length (trace w))"
  note st = Write_sync_fails [OF f v need s, of clean p]
  show "trace (snd (snd (Write clean r p w))) = trace w @ [EvSync h]" by (rule st(4))
  show "snd (fst (Write clean r p w)) \<noteq> None" by (rule st(2))
  show "fst (snd (Write clean r p w)) = r" by (rule st(3))
  show "handles (snd (snd (Write clean r p w))) = handles w" by (rule st(5))
  show "spawned (snd (snd (Write clean r p w))) = spawned w" by (rule st(6))
  show "files (snd (snd (Write clean r p w))) = files w" by (rule st(7))
next
  assume s: "\<not> closed (handles w ! h) \<and> \<not> faults w (length (trace w))
            \<and> faults w (Suc (length (trace w)))"
  then have s': "\<not> closed (handles w ! h)" "\<not> faults w (length (trace w))"
    "faults w (Suc (length (trace w)))" by simp_all
  note st = Write_close_fails [OF f v need s', of clean p]
  show "trace (snd (snd (Write clean r p w))) = trace w @ [EvSync h, EvClose h]" by (rule st(4))
  show "snd (fst (Write clean r p w)) \<noteq> None" by (rule st(2))
  show "fst (snd (Write clean r p w)) = r" by (rule st(3))
  show "length (handles (snd (snd (Write clean r p w)))) = length (handles w)" by (rule st(5))
  show "spawned (snd (snd (Write clean r p w))) = spawned w" by (rule st(6))
  show "files (snd (snd (Write clean r p w))) = files w" by (rule st(7))
next
  assume c: "closes_ok h w"
  note st = Write_reaches_open [OF f v need c, of clean p]
  show "\<exists>mk opn wr. trace (snd (snd (Write clean r p w))) = trace w @ [EvSync h, EvClose h]
                @ (if compress r then [EvGo (fname (handles w ! h))] else [])
                @ [EvStat (path r)] @ (if mk then [EvMkdirAll (path r)] else [])
                @ (if opn then [EvOpenFile (filepath_Join clean (path r)
                      (Format (date (fst (snd (Write clean r p w)))) @ ''.log''))] else [])
                @ (if wr then [EvWrite (length (handles w)) p] else [])
              \<and> (wr \<longrightarrow> opn)
              \<and> (wr \<longleftrightarrow> file (fst (snd (Write clean r p w))) = Some (length (handles w)))"
    by (rule st(1))
  show "closed (handles (snd (snd (Write clean r p w))) ! h)" by (rule st(2))
  show "spawned (snd (snd (Write clean r p w)))
                = spawned w @ (if compress r then [fname (handles w ! h)] else [])"
    by (rule st(3))
  show "date (fst (snd (Write clean r p w))) = clock w (ticks (snd (needRotate r w)))"
    by (rule st(4))
next
  assume a: "\<not> closed (handles w ! h) \<and> calm w \<and> path r \<in> dirs w"
  then have o: "\<not> closed (handles w ! h)" and c: "calm w" and d: "path r \<in> dirs w"
    by simp_all
  note st = Write_rotation_calm [OF f v need o c d, of clean p]
  have dt: "date (fst (snd (Write clean r p w))) = clock w (ticks (snd (needRotate r w)))"
    by (simp add: st(2))
  show "fst (Write clean r p w) = (length p, None)" by (rule st(1))
  show "trace (snd (snd (Write clean r p w))) = trace w @ [EvSync h, EvClose h]
                @ (if compress r then [EvGo (fname (handles w ! h))] else [])
                @ [EvStat (path r),
                   EvOpenFile (filepath_Join clean (path r)
                      (Format (date (fst (snd (Write clean r p w)))) @ ''.log'')),
                   EvWrite (length (handles w)) p]"
    unfolding dt by (rule st(3))
  show "file (fst (snd (Write clean r p w))) = Some (length (handles w))" by (simp add: st(2))
  show "handles (snd (snd (Write clean r p w))) ! length (handles w)
                = \<lparr>fname = filepath_Join clean (path r)
                      (Format (date (fst (snd (Write clean r p w)))) @ ''.log''), closed = False\<rparr>"
    unfolding dt by (rule st(6))
  show "closed (handles (snd (snd (Write clean r p w))) ! h)" by (rule st(7))
  show "spawned (snd (snd (Write clean r p w)))
                = spawned w @ (if compress r then [fname (handles w ! h)] else [])"
    by (rule st(4))
  show "files (snd (snd (Write clean r p w)))
                = appendTo (filepath_Join clean (path r)
                      (Format (date (fst (snd (Write clean r p w)))) @ ''.log'')) p
                    (if filepath_Join clean (path r)
                          (Format (date (fst (snd (Write clean r p w)))) @ ''.log'') \<in> dom (files w)
                     then files w
                     else (files w)(filepath_Join clean (path r)
                          (Format (date (fst (snd (Write clean r p w)))) @ ''.log'') \<mapsto> Raw []))"
    unfolding dt by (rule st(8))
qed

theorem rotating_Write_closes_before_opening_witness:
  "file sinkMay1 = Some 0 \<and> 0 < length (handles (worldMay2 (\<lambda>k. False)))
   \<and> fst (needRotate sinkMay1 (worldMay2 (\<lambda>k. False)))
   \<and> closes_ok 0 (worldMay2 (\<lambda>k. False)) \<and> calm (worldMay2 (\<lambda>k. False))
   \<and> path sinkMay1 \<in> dirs (worldMay2 (\<lambda>k. False))
   \<and> fst (Write id sinkMay1 ''x'' (worldMay2 (\<lambda>k. False))) = (1, None)
   \<and> trace (snd (snd (Write id sinkMay1 ''x'' (worldMay2 (\<lambda>k. False)))))
       = [EvSync 0, EvClose 0, EvGo ''logs/2024_05_01.log'', EvStat ''logs'',
          EvOpenFile ''logs/2024_05_02.log'', EvWrite 1 ''x'']
   \<and> spawned (snd (snd (Write id sinkMay1 ''x'' (worldMay2 (\<lambda>k. False)))))
       = [''logs/2024_05_01.log'']
   \<and> files (snd (snd (Write id sinkMay1 ''x'' (worldMay2 (\<lambda>k. False))))) ''logs/2024_05_01.log''
       = Some (Raw ''old'')
   \<and> files (snd (snd (Write id sinkMay1 ''x'' (worldMay2 (\<lambda>k. False))))) ''logs/2024_05_02.log''
       = Some (Raw ''x'')
   \<and> files (snd (snd (Write id sinkMay1 ''x'' (worldMay2 (\<lambda>k. False)))))
        ''logs/2024_05_01.log.zip'' = None
   \<and> faults (worldMay2 (\<lambda>k. k = 0)) (length (trace (worldMay2 (\<lambda>k. k = 0))))
   \<and> trace (snd (snd (Write id sinkMay1 ''x'' (worldMay2 (\<lambda>k. k = 0))))) = [EvSync 0]
   \<and> spawned (snd (snd (Write id sinkMay1 ''x'' (worldMay2 (\<lambda>k. k = 0))))) = []
   \<and> \<not> faults (worldMay2 (\<lambda>k. k = 1)) (length (trace (worldMay2 (\<lambda>k. k = 1))))
   \<and> faults (worldMay2 (\<lambda>k. k = 1)) (Suc (length (trace (worldMay2 (\<lambda>k. k = 1)))))
   \<and> trace (snd (snd (Write id sinkMay1 ''x'' (worldMay2 (\<lambda>k. k = 1)))))
       = [EvSync 0, EvClose 0]
   \<and> spawned (snd (snd (Write id sinkMay1 ''x'' (worldMay2 (\<lambda>k. k = 1))))) = []"
proof -
  have f: "file sinkMay1 = Some 0" by simp
  have v: "0 < length (handles (worldMay2 fl))" for fl by simp
  have n: "fst (needRotate sinkMay1 (worldMay2 fl))" for fl by simp
  have c: "closes_ok 0 (worldMay2 (\<lambda>k. False))" "calm (worldMay2 (\<lambda>k. False))"
    "path sinkMay1 \<in> dirs (worldMay2 (\<lambda>k. False))"
    "\<not> closed (handles (worldMay2 (\<lambda>k. False)) ! 0)"
    by (simp_all add: closes_ok_def calm_def)
  note all = rotating_Write_closes_before_opening [OF f v [of "\<lambda>k. False"] n [of "\<lambda>k. False"], of id "''x''"]
  from all c have d: "date (fst (snd (Write id sinkMay1 ''x'' (worldMay2 (\<lambda>k. False))))) = may 2"
    by simp
  from all c have calm: "fst (Write id sinkMay1 ''x'' (worldMay2 (\<lambda>k. False))) = (1, None)"
    "trace (snd (snd (Write id sinkMay1 ''x'' (worldMay2 (\<lambda>k. False)))))
       = [EvSync 0, EvClose 0, EvGo ''logs/2024_05_01.log'', EvStat ''logs'',
          EvOpenFile ''logs/2024_05_02.log'', EvWrite 1 ''x'']"
    "spawned (snd (snd (Write id sinkMay1 ''x'' (worldMay2 (\<lambda>k. False)))))
       = [''logs/2024_05_01.log'']"
    "files (snd (snd (Write id sinkMay1 ''x'' (worldMay2 (\<lambda>k. False)))))
       = appendTo ''logs/2024_05_02.log'' ''x''
           [''logs/2024_05_01.log'' \<mapsto> Raw ''old'', ''logs/2024_05_02.log'' \<mapsto> Raw []]"
    by (simp_all add: d Join_may2)
  have fs: "files (snd (snd (Write id sinkMay1 ''x'' (worldMay2 (\<lambda>k. False))))) ''logs/2024_05_01.log''
       = Some (Raw ''old'')"
    "files (snd (snd (Write id sinkMay1 ''x'' (worldMay2 (\<lambda>k. False))))) ''logs/2024_05_02.log''
       = Some (Raw ''x'')"
    "files (snd (snd (Write id sinkMay1 ''x'' (worldMay2 (\<lambda>k. False)))))
        ''logs/2024_05_01.log.zip'' = None"
    by (simp_all add: calm(4) appendTo_def)
  from rotating_Write_closes_before_opening [OF f v [of "\<lambda>k. k = 0"] n [of "\<lambda>k. k = 0"], of id "''x''"]
  have s0: "trace (snd (snd (Write id sinkMay1 ''x'' (worldMay2 (\<lambda>k. k = 0))))) = [EvSync 0]"
    "spawned (snd (snd (Write id sinkMay1 ''x'' (worldMay2 (\<lambda>k. k = 0))))) = []"
    by simp_all
  from rotating_Write_closes_before_opening [OF f v [of "\<lambda>k. k = 1"] n [of "\<lambda>k. k = 1"], of id "''x''"]
  have s1: "trace (snd (snd (Write id sinkMay1 ''x'' (worldMay2 (\<lambda>k. k = 1)))))
       = [EvSync 0, EvClose 0]"
    "spawned (snd (snd (Write id sinkMay1 ''x'' (worldMay2 (\<lambda>k. k = 1))))) = []"
    by simp_all
  show ?thesis
    using c calm(1,2,3) fs s0 s1 by simp
qed

subsection \<open>When a \<^verbatim>\<open>Write\<close> rotates\<close>

text \<open>
  Claim C1, as stated, fails when the date changes between the readings of the clock.
  The sink holds the log of 2024-05-30; \<^verbatim>\<open>needRotate\<close> reads April 30 for the day and
  May 1 for the month and the year. The stored date differs from the date of every
  reading, yet the three comparisons find the fields equal: the \<^verbatim>\<open>Write\<close> does not
  rotate, and its only call appends the record to the old file.
\<close>

theorem torn_read_skips_rotation:
  "file sinkMay30 = Some 0
   \<and> ymd (date sinkMay30) \<noteq> ymd (clock tornWorld 0)
   \<and> ymd (date sinkMay30) \<noteq> ymd (clock tornWorld 1)
   \<and> ymd (date sinkMay30) \<noteq> ymd (clock tornWorld 2)
   \<and> fst (Write id sinkMay30 ''x'' tornWorld) = (1, None)
   \<and> fst (snd (Write id sinkMay30 ''x'' tornWorld)) = sinkMay30
   \<and> ticks (snd (snd (Write id sinkMay30 ''x'' tornWorld))) = 3
   \<and> trace (snd (snd (Write id sinkMay30 ''x'' tornWorld))) = [EvWrite 0 ''x'']
   \<and> files (snd (snd (Write id sinkMay30 ''x'' tornWorld))) ''logs/2024_05_30.log''
       = Some (Raw ''oldx'')"
  by (simp add: sinkMay30_def tornWorld_def may_def april_def ymd_def sink_defs appendTo_def)

text \<open>
  Claim C1, amended. Take a \<^verbatim>\<open>Write\<close> on a sink that holds a file, during which every
  reading of the clock (three in \<^verbatim>\<open>needRotate\<close>, one in \<^verbatim>\<open>rotate\<close>) shows the same
  calendar date. When the year, the month and the day of the stored date equal that
  date, no rotation occurs: the only call is the write of the record to the handle the
  sink holds, and the sink, the handles and the started workers are as before. When one
  of the three fields differs, whatever the distance in time, the rotation is
  performed: its first call is the \<^verbatim>\<open>Sync\<close> of the old handle; when neither that \<^verbatim>\<open>Sync\<close>
  nor the \<^verbatim>\<open>Close\<close> fails, the old handle is closed, the stored date becomes the date of
  the clock and \<^verbatim>\<open>openNew\<close> is called; when no call fails and the directory exists, the
  sink holds a new open handle, named after the date of the clock, and the record is
  written whole to it.
\<close>

theorem Write_rotates_iff_date_differs_from_today:
  assumes f: "file r = Some h" and v: "h < length (handles w)" and today: "one_date w today"
  shows "(ymd (date r) = today \<longrightarrow>
            new_events w (snd (snd (Write clean r p w))) = [EvWrite h p]
            \<and> fst (snd (Write clean r p w)) = r
            \<and> handles (snd (snd (Write clean r p w))) = handles w
            \<and> spawned (snd (snd (Write clean r p w))) = spawned w)
       \<and> (ymd (date r) \<noteq> today \<longrightarrow>
            hd (new_events w (snd (snd (Write clean r p w)))) = EvSync h
            \<and> (closes_ok h w \<longrightarrow>
                 take 2 (new_events w (snd (snd (Write clean r p w)))) = [EvSync h, EvClose h]
                 \<and> EvStat (path r) \<in> set (new_events w (snd (snd (Write clean r p w))))
                 \<and> closed (handles (snd (snd (Write clean r p w))) ! h)
                 \<and> ymd (date (fst (snd (Write clean r p w)))) = today)
            \<and> (\<not> closed (handles w ! h) \<and> calm w \<and> path r \<in> dirs w \<longrightarrow>
                 fst (Write clean r p w) = (length p, None)
                 \<and> new_events w (snd (snd (Write clean r p w))) = [EvSync h, EvClose h]
                     @ (if compress r then [EvGo (fname (handles w ! h))] else [])
                     @ [EvStat (path r),
                        EvOpenFile (filepath_Join clean (path r)
                           (Format (date (fst (snd (Write clean r p w)))) @ ''.log'')),
                        EvWrite (length (handles w)) p]
                 \<and> file (fst (snd (Write clean r p w))) = Some (length (handles w))
                 \<and> handles (snd (snd (Write clean r p w))) ! length (handles w)
                     = \<lparr>fname = filepath_Join clean (path r)
                           (Format (date (fst (snd (Write clean r p w)))) @ ''.log''),
                        closed = False\<rparr>
                 \<and> closed (handles (snd (snd (Write clean r p w))) ! h)))"
proof (intro conjI impI)
  assume same: "ymd (date r) = today"
  have n: "\<not> fst (needRotate r w)" using one_date_needRotate(1) [OF today] same by simp
  note W = Write_no_rotation [OF f n, of clean p]
  show "new_events w (snd (snd (Write clean r p w))) = [EvWrite h p]"
    using v by (simp add: W new_events_def FWrite_trace valid_def)
  show "fst (snd (Write clean r p w)) = r" by (simp add: W)
  show "handles (snd (snd (Write clean r p w))) = handles w" by (simp add: W)
  show "spawned (snd (snd (Write clean r p w))) = spawned w" by (simp add: W)
next
  assume past: "ymd (date r) \<noteq> today"
  have need: "fst (needRotate r w)" using one_date_needRotate(1) [OF today] past by simp
  show "hd (new_events w (snd (snd (Write clean r p w)))) = EvSync h"
  proof (cases "closes_ok h w")
    case True
    from Write_reaches_open(1) [OF f v need True, of clean p] show ?thesis
      by (auto simp add: new_events_def)
  next
    case False
    then consider "closed (handles w ! h) \<or> faults w (length (trace w))"
      | "\<not> closed (handles w ! h)" "\<not> faults w (length (trace w))"
        "faults w (Suc (length (trace w)))"
      by (auto simp add: closes_ok_def)
    then show ?thesis
    proof cases
      case 1
      then show ?thesis using Write_sync_fails(4) [OF f v need 1, of clean p]
        by (simp add: new_events_def)
    next
      case 2
      then show ?thesis using Write_close_fails(4) [OF f v need 2, of clean p]
        by (simp add: new_events_def)
    qed
  qed
next
  assume past: "ymd (date r) \<noteq> today" and c: "closes_ok h w"
  have need: "fst (needRotate r w)" using one_date_needRotate(1) [OF today] past by simp
  note st = Write_reaches_open [OF f v need c, of clean p]
  from st(1) show "take 2 (new_events w (snd (snd (Write clean r p w)))) = [EvSync h, EvClose h]"
    by (auto simp add: new_events_def)
  from st(1) show "EvStat (path r) \<in> set (new_events w (snd (snd (Write clean r p w))))"
    by (auto simp add: new_events_def)
  show "closed (handles (snd (snd (Write clean r p w))) ! h)" by (rule st(2))
  show "ymd (date (fst (snd (Write clean r p w)))) = today"
    using one_date_needRotate(2) [OF today, of r] by (simp add: st(4))
next
  assume past: "ymd (date r) \<noteq> today"
    and a: "\<not> closed (handles w ! h) \<and> calm w \<and> path r \<in> dirs w"
  have need: "fst (needRotate r w)" using one_date_needRotate(1) [OF today] past by simp
  from a have o: "\<not> closed (handles w ! h)" and c: "calm w" and d: "path r \<in> dirs w"
    by simp_all
  note st = Write_rotation_calm [OF f v need o c d, of clean p]
  have dt: "date (fst (snd (Write clean r p w))) = clock w (ticks (snd (needRotate r w)))"
    by (simp add: st(2))
  show "fst (Write clean r p w) = (length p, None)" by (rule st(1))
  show "new_events w (snd (snd (Write clean r p w))) = [EvSync h, EvClose h]
                     @ (if compress r then [EvGo (fname (handles w ! h))] else [])
                     @ [EvStat (path r),
                        EvOpenFile (filepath_Join clean (path r)
                           (Format (date (fst (snd (Write clean r p w)))) @ ''.log'')),
                        EvWrite (length (handles w)) p]"
    unfolding dt by (simp add: new_events_def st(3))
  show "file (fst (snd (Write clean r p w))) = Some (length (handles w))" by (simp add: st(2))
  show "handles (snd (snd (Write clean r p w))) ! length (handles w)
                     = \<lparr>fname = filepath_Join clean (path r)
                           (Format (date (fst (snd (Write clean r p w)))) @ ''.log''),
                        closed = False\<rparr>"
    unfolding dt by (rule st(6))
  show "closed (handles (snd (snd (Write clean r p w))) ! h)" by (rule st(7))
qed

theorem Write_rotates_iff_date_differs_from_today_witness:
  "file sinkMay1 = Some 0 \<and> 0 < length (handles (worldMay2 (\<lambda>k. False)))
   \<and> one_date (worldMay2 (\<lambda>k. False)) (2024, 5, 2)
   \<and> ymd (date sinkMay1) \<noteq> (2024, 5, 2)
   \<and> closes_ok 0 (worldMay2 (\<lambda>k. False)) \<and> calm (worldMay2 (\<lambda>k. False))
   \<and> path sinkMay1 \<in> dirs (worldMay2 (\<lambda>k. False))
   \<and> fst (Write id sinkMay1 ''x'' (worldMay2 (\<lambda>k. False))) = (1, None)
   \<and> new_events (worldMay2 (\<lambda>k. False)) (snd (snd (Write id sinkMay1 ''x'' (worldMay2 (\<lambda>k. False)))))
       = [EvSync 0, EvClose 0, EvGo ''logs/2024_05_01.log'', EvStat ''logs'',
          EvOpenFile ''logs/2024_05_02.log'', EvWrite 1 ''x'']
   \<and> file (fst (snd (Write id sinkMay1 ''x'' (worldMay2 (\<lambda>k. False))))) = Some 1
   \<and> ymd (date (fst (snd (Write id sinkMay1 ''x'' (worldMay2 (\<lambda>k. False)))))) = (2024, 5, 2)
   \<and> file (fst (snd afterWrite)) = Some 0 \<and> 0 < length (handles (snd (snd afterWrite)))
   \<and> one_date (snd (snd afterWrite)) (2024, 5, 1)
   \<and> ymd (date (fst (snd afterWrite))) = (2024, 5, 1)
   \<and> new_events (snd (snd afterWrite))
        (snd (snd (Write id (fst (snd afterWrite)) ''x'' (snd (snd afterWrite)))))
       = [EvWrite 0 ''x'']"
proof -
  have f: "file sinkMay1 = Some 0" by simp
  have v: "0 < length (handles (worldMay2 (\<lambda>k. False)))" by simp
  have t: "one_date (worldMay2 (\<lambda>k. False)) (2024, 5, 2)"
    by (simp add: one_date_def ymd_def may_def)
  have p: "ymd (date sinkMay1) \<noteq> (2024, 5, 2)" by (simp add: ymd_def may_def)
  have c: "closes_ok 0 (worldMay2 (\<lambda>k. False))" "calm (worldMay2 (\<lambda>k. False))"
    "path sinkMay1 \<in> dirs (worldMay2 (\<lambda>k. False))"
    "\<not> closed (handles (worldMay2 (\<lambda>k. False)) ! 0)"
    by (simp_all add: closes_ok_def calm_def)
  note a = Write_rotates_iff_date_differs_from_today [OF f v t, of id "''x''"]
  from a p c have d: "ymd (date (fst (snd (Write id sinkMay1 ''x'' (worldMay2 (\<lambda>k. False))))))
      = (2024, 5, 2)"
    by simp
  then have fm: "Format (date (fst (snd (Write id sinkMay1 ''x'' (worldMay2 (\<lambda>k. False))))))
      = ''2024_05_02''"
    by (simp add: ymd_def Format_def appendInt_def digit_def)
  have jn: "filepath_Join id ''logs'' ''2024_05_02.log'' = ''logs/2024_05_02.log''"
    by (simp add: filepath_Join_def)
  from a p c have rot: "fst (Write id sinkMay1 ''x'' (worldMay2 (\<lambda>k. False))) = (1, None)"
    "new_events (worldMay2 (\<lambda>k. False)) (snd (snd (Write id sinkMay1 ''x'' (worldMay2 (\<lambda>k. False)))))
       = [EvSync 0, EvClose 0, EvGo ''logs/2024_05_01.log'', EvStat ''logs'',
          EvOpenFile ''logs/2024_05_02.log'', EvWrite 1 ''x'']"
    "file (fst (snd (Write id sinkMay1 ''x'' (worldMay2 (\<lambda>k. False))))) = Some 1"
    by (simp_all add: fm jn)
  have f1: "file (fst (snd afterWrite)) = Some 0" by (rule afterWrite_eval(2))
  have v1: "0 < length (handles (snd (snd afterWrite)))" by (simp add: afterWrite_eval(3))
  have t1: "one_date (snd (snd afterWrite)) (2024, 5, 1)"
    by (simp add: one_date_def afterWrite_state ymd_def may_def)
  have s1: "ymd (date (fst (snd afterWrite))) = (2024, 5, 1)"
    by (simp add: afterWrite_state ymd_def may_def)
  from Write_rotates_iff_date_differs_from_today [OF f1 v1 t1, of id "''x''"] s1
  have same: "new_events (snd (snd afterWrite))
        (snd (snd (Write id (fst (snd afterWrite)) ''x'' (snd (snd afterWrite)))))
       = [EvWrite 0 ''x'']"
    by simp
  show ?thesis
    using f v t p c(1,2,3) rot d f1 v1 t1 s1 same by simp
qed

section \<open>The compression worker\<close>

lemma Base_eval: "Base ''logs/2024_05_01.log'' = ''2024_05_01.log''"
  by (simp add: Base_def stripSlashes_def)

subsection \<open>The calls of the worker\<close>

lemma os_Open_simps [simp]:
  "fst (os_Open n w) =
     (if fault w then Inl ErrIO else if n \<notin> dom (files w) then Inl ErrNotExist
      else Inr (length (handles w)))"
  "files (snd (os_Open n w)) = files w"
  "trace (snd (os_Open n w)) = trace w @ [EvOpen n]"
  "faults (snd (os_Open n w)) = faults w"
  "short (snd (os_Open n w)) = short w"
  "handles (snd (os_Open n w)) =
     (if fault w \<or> n \<notin> dom (files w) then handles w
      else handles w @ [\<lparr>fname = n, closed = False\<rparr>])"
  by (simp_all add: os_Open_def)

lemma os_Create_simps [simp]:
  "fst (os_Create n w) = (if fault w then Inl ErrIO else Inr (length (handles w)))"
  "files (snd (os_Create n w)) = (if fault w then files w else (files w)(n \<mapsto> Raw []))"
  "trace (snd (os_Create n w)) = trace w @ [EvCreate n]"
  "faults (snd (os_Create n w)) = faults w"
  "short (snd (os_Create n w)) = short w"
  "handles (snd (os_Create n w)) =
     (if fault w then handles w else handles w @ [\<lparr>fname = n, closed = False\<rparr>])"
  by (simp_all add: os_Create_def)

lemma os_Remove_simps [simp]:
  "files (snd (os_Remove n w)) = (if fault w then files w else (files w)(n := None))"
  "trace (snd (os_Remove n w)) = trace w @ [EvRemove n]"
  "faults (snd (os_Remove n w)) = faults w"
  "short (snd (os_Remove n w)) = short w"
  "handles (snd (os_Remove n w)) = handles w"
  by (auto simp: os_Remove_def)

lemma File_Stat_simps [simp]:
  "files (snd (File_Stat f w)) = files w"
  "trace (snd (File_Stat f w)) = (if valid f w then trace w @ [EvFstat (the f)] else trace w)"
  "faults (snd (File_Stat f w)) = faults w"
  "short (snd (File_Stat f w)) = short w"
  "handles (snd (File_Stat f w)) = handles w"
  by (simp_all add: File_Stat_def)

lemma File_Stat_fst:
  "fst (File_Stat f w) =
     (if \<not> valid f w then Inl ErrInvalid
      else if closed (handles w ! the f) then Inl ErrClosed
      else if fault w then Inl ErrIO
      else Inr \<lparr>Name = Base (fname (handles w ! the f)),
                Size = length (contents (fname (handles w ! the f)) w)\<rparr>)"
  by (simp add: File_Stat_def)

lemma zip_FileInfoHeader_simps [simp]:
  "fst (zip_FileInfoHeader fi w) = (if fault w then Inl ErrIO else Inr (Name fi))"
  "files (snd (zip_FileInfoHeader fi w)) = files w"
  "trace (snd (zip_FileInfoHeader fi w)) = trace w @ [EvFileInfoHeader (Name fi)]"
  "faults (snd (zip_FileInfoHeader fi w)) = faults w"
  "short (snd (zip_FileInfoHeader fi w)) = short w"
  "handles (snd (zip_FileInfoHeader fi w)) = handles w"
  by (simp_all add: zip_FileInfoHeader_def)

lemma zip_CreateHeader_simps [simp]:
  "fst (zip_CreateHeader zw hn w) =
     (if fault w then Inl ErrIO else Inr (zw\<lparr>pending := pending zw @ [(hn, [])]\<rparr>))"
  "files (snd (zip_CreateHeader zw hn w)) = files w"
  "trace (snd (zip_CreateHeader zw hn w)) = trace w @ [EvCreateHeader hn]"
  "faults (snd (zip_CreateHeader zw hn w)) = faults w"
  "short (snd (zip_CreateHeader zw hn w)) = short w"
  "handles (snd (zip_CreateHeader zw hn w)) = handles w"
  by (simp_all add: zip_CreateHeader_def)

lemma io_Copy_simps [simp]:
  "fst (io_Copy zw f w) = (if fault w then Some ErrIO else None)"
  "fst (snd (io_Copy zw f w)) =
     zw\<lparr>pending := fillLast (if fault w then take (short w (length (trace w)))
                                                (contents (fname (handles w ! f)) w)
                               else contents (fname (handles w ! f)) w)
                       (pending zw)\<rparr>"
  "files (snd (snd (io_Copy zw f w))) = files w"
  "trace (snd (snd (io_Copy zw f w))) = trace w @ [EvCopy f]"
  "faults (snd (snd (io_Copy zw f w))) = faults w"
  "short (snd (snd (io_Copy zw f w))) = short w"
  "handles (snd (snd (io_Copy zw f w))) = handles w"
  by (simp_all add: io_Copy_def Let_def)

lemma zip_Close_simps [simp]:
  "files (snd (zip_Close zw w)) =
     (if fault w then
        (if short w (length (trace w)) = 0 then files w
         else (files w)(fname (handles w ! target zw) \<mapsto>
                 Zip (truncated (short w (length (trace w))) (pending zw)) False))
      else (files w)(fname (handles w ! target zw) \<mapsto> Zip (pending zw) True))"
  "trace (snd (zip_Close zw w)) = trace w @ [EvZipClose (fname (handles w ! target zw))]"
  "faults (snd (zip_Close zw w)) = faults w"
  "short (snd (zip_Close zw w)) = short w"
  "handles (snd (zip_Close zw w)) = handles w"
  by (simp_all add: zip_Close_def Let_def)

lemma File_Close_more [simp]:
  "faults (snd (File_Close f w)) = faults w"
  by simp

lemma compressBody_ok:
  assumes "\<forall>k < 6. \<not> faults w (length (trace w) + k)"
    and "f < length (handles w)" "\<not> closed (handles w ! f)" "fname (handles w ! f) = src"
    and "files w src = Some (Raw bs)"
  shows "files (snd (compressBody src f zw w)) = (files w)(src := None)"
    and "fst (compressBody src f zw w) = zw\<lparr>pending := pending zw @ [(Base src, bs)]\<rparr>"
    and "length (trace (snd (compressBody src f zw w))) = length (trace w) + 6"
    and "faults (snd (compressBody src f zw w)) = faults w"
    and "short (snd (compressBody src f zw w)) = short w"
    and "fname (handles (snd (compressBody src f zw w)) ! i) = fname (handles w ! i)"
proof -
  have f: "\<not> faults w (length (trace w))" "\<not> faults w (Suc (length (trace w)))"
    "\<not> faults w (Suc (Suc (length (trace w))))" "\<not> faults w (Suc (Suc (Suc (length (trace w)))))"
    "\<not> faults w (Suc (Suc (Suc (Suc (length (trace w))))))"
    "\<not> faults w (Suc (Suc (Suc (Suc (Suc (length (trace w)))))))"
    using assms(1) [rule_format, of 0] assms(1) [rule_format, of 1] assms(1) [rule_format, of 2]
      assms(1) [rule_format, of 3] assms(1) [rule_format, of 4] assms(1) [rule_format, of 5]
    by (simp_all add: eval_nat_numeral)
  show "files (snd (compressBody src f zw w)) = (files w)(src := None)"
    using assms(2-) f
    by (simp add: compressBody_def split_beta File_Stat_fst fault_def valid_def Close_trace)
  show "fst (compressBody src f zw w) = zw\<lparr>pending := pending zw @ [(Base src, bs)]\<rparr>"
    using assms(2-) f
    by (simp add: compressBody_def split_beta File_Stat_fst fault_def valid_def Close_trace
        contents_def fillLast_def)
  show "length (trace (snd (compressBody src f zw w))) = length (trace w) + 6"
    using assms(2-) f
    by (simp add: compressBody_def split_beta File_Stat_fst fault_def valid_def Close_trace)
  show "faults (snd (compressBody src f zw w)) = faults w"
    using assms(2-) f
    by (simp add: compressBody_def split_beta File_Stat_fst fault_def valid_def Close_trace)
  show "short (snd (compressBody src f zw w)) = short w"
    using assms(2-) f
    by (simp add: compressBody_def split_beta File_Stat_fst fault_def valid_def Close_trace)
  show "fname (handles (snd (compressBody src f zw w)) ! i) = fname (handles w ! i)"
    using assms(2-) f
    by (simp add: compressBody_def split_beta File_Stat_fst fault_def valid_def Close_trace)
qed

text \<open>
  A run of the worker in which the eight calls up to \<^verbatim>\<open>os.Remove\<close> succeed: the source
  is removed, and what the archive holds depends on the deferred \<^verbatim>\<open>zipWriter.Close()\<close>,
  the call at position 8.
\<close>

lemma compressFile_run:
  assumes src: "files w src = Some (Raw bs)"
    and ok: "\<forall>k < 8. \<not> faults w (length (trace w) + k)"
  shows "files (compressFile src w) =
           (files w)(src := None,
                     src @ ''.zip'' \<mapsto>
                       (if \<not> faults w (length (trace w) + 8) then Zip [(Base src, bs)] True
                        else if short w (length (trace w) + 8) = 0 then Raw []
                        else Zip [(Base src, take (short w (length (trace w) + 8)) bs)] False))"
proof -
  define w2 where "w2 = snd (os_Create (src @ ''.zip'') (snd (os_Open src w)))"
  define f where "f = length (handles w)"
  define zf where "zf = Suc (length (handles w))"
  define B where "B = compressBody src f (zip_NewWriter zf) w2"
  have f0: "\<not> faults w (length (trace w))" "\<not> faults w (Suc (length (trace w)))"
    using ok [rule_format, of 0] ok [rule_format, of 1] by simp_all
  have d: "src \<in> dom (files w)" using src by (simp add: domI)
  have t2: "length (trace w2) = length (trace w) + 2" and fl2: "faults w2 = faults w"
    and sh2: "short w2 = short w"
    by (simp_all add: w2_def)
  have h2: "handles w2 = handles w @ [\<lparr>fname = src, closed = False\<rparr>,
                                       \<lparr>fname = src @ ''.zip'', closed = False\<rparr>]"
    using f0 d by (simp add: w2_def fault_def)
  have fs2: "files w2 = (files w)(src @ ''.zip'' \<mapsto> Raw [])"
    using f0 d by (simp add: w2_def fault_def)
  have pre: "\<forall>k < 6. \<not> faults w2 (length (trace w2) + k)"
  proof (intro allI impI)
    fix k :: nat assume "k < 6"
    then have "2 + k < 8" by simp
    from ok [rule_format, OF this] show "\<not> faults w2 (length (trace w2) + k)"
      by (simp add: t2 fl2 add.assoc)
  qed
  have a: "f < length (handles w2)" "\<not> closed (handles w2 ! f)" "fname (handles w2 ! f) = src"
    "files w2 src = Some (Raw bs)"
    using src by (simp_all add: h2 fs2 f_def nth_append)
  note body = compressBody_ok [OF pre a, of "zip_NewWriter zf", folded B_def]
  have zn: "fname (handles (snd B) ! zf) = src @ ''.zip''"
    by (simp add: body(6) h2 zf_def nth_append)
  have cf: "compressFile src w =
      snd (File_Close (Some f) (snd (File_Close (Some zf) (snd (zip_Close (fst B) (snd B))))))"
    using f0 d by (simp add: compressFile_def split_beta fault_def B_def w2_def f_def zf_def)
  have tb: "length (trace (snd B)) = length (trace w) + 8"
    by (simp add: body t2)
  have fb: "fault (snd B) = faults w (length (trace w) + 8)"
    unfolding fault_def by (simp only: body(4) fl2 tb)
  show ?thesis
    by (simp add: cf fb tb body(1,2,5) sh2 zn fs2 zip_NewWriter_def truncated_def fun_upd_twist)
qed

text \<open>
  The sibling paths: when a call before the copy has ended fails, the worker returns
  before \<^verbatim>\<open>os.Remove\<close> and the source is kept.
\<close>

lemma compressBody_early_failure:
  assumes "f < length (handles w)" "\<not> closed (handles w ! f)"
    and "faults w (length (trace w)) \<or> faults w (Suc (length (trace w)))
         \<or> faults w (Suc (Suc (length (trace w)))) \<or> faults w (Suc (Suc (Suc (length (trace w)))))"
  shows "files (snd (compressBody src f zw w)) = files w"
    and "handles (snd (compressBody src f zw w)) = handles w"
    and "target (fst (compressBody src f zw w)) = target zw"
  using assms
  by (auto simp add: compressBody_def split_beta File_Stat_fst fault_def valid_def Close_trace
        split: sum.splits option.splits)

lemma compressFile_early_failure:
  assumes src: "files w src = Some d" and k: "k < 6" "faults w (length (trace w) + k)"
  shows "files (compressFile src w) src = Some d"
proof (cases "faults w (length (trace w))")
  case True
  then show ?thesis using src by (simp add: compressFile_def split_beta fault_def)
next
  case f0: False
  show ?thesis
  proof (cases "faults w (Suc (length (trace w)))")
    case True
    then show ?thesis using src f0 by (simp add: compressFile_def split_beta fault_def domI)
  next
    case f1: False
    define w2 where "w2 = snd (os_Create (src @ ''.zip'') (snd (os_Open src w)))"
    define f where "f = length (handles w)"
    define zf where "zf = Suc (length (handles w))"
    define B where "B = compressBody src f (zip_NewWriter zf) w2"
    have d: "src \<in> dom (files w)" using src by (simp add: domI)
    have t2: "length (trace w2) = Suc (Suc (length (trace w)))" and fl2: "faults w2 = faults w"
      by (simp_all add: w2_def)
    have h2: "handles w2 = handles w @ [\<lparr>fname = src, closed = False\<rparr>,
                                         \<lparr>fname = src @ ''.zip'', closed = False\<rparr>]"
      using f0 f1 d by (simp add: w2_def fault_def)
    have fs2: "files w2 src = Some d"
      using f0 f1 d src by (simp add: w2_def fault_def)
    have "k = 2 \<or> k = 3 \<or> k = 4 \<or> k = 5" using k f0 f1 
      by (cases "k = 0"; cases "k = 1"; simp; arith)
    then have pre: "faults w2 (length (trace w2)) \<or> faults w2 (Suc (length (trace w2)))
         \<or> faults w2 (Suc (Suc (length (trace w2)))) \<or> faults w2 (Suc (Suc (Suc (length (trace w2)))))"
      using k(2) by (auto simp: t2 fl2 eval_nat_numeral)
    have a: "f < length (handles w2)" "\<not> closed (handles w2 ! f)"
      by (simp_all add: h2 f_def nth_append)
    note body = compressBody_early_failure [OF a pre, of src "zip_NewWriter zf", folded B_def]
    have cf: "compressFile src w =
        snd (File_Close (Some f) (snd (File_Close (Some zf) (snd (zip_Close (fst B) (snd B))))))"
      using f0 f1 d by (simp add: compressFile_def split_beta fault_def w2_def f_def zf_def B_def)
    have nz: "fname (handles w2 ! target (fst B)) = src @ ''.zip''"
      by (simp add: body(3) zip_NewWriter_def h2 zf_def nth_append)
    show ?thesis
      by (simp add: cf body(1,2) fs2 nz)
  qed
qed

text \<open>
  Claim C6 says that the worker never deletes the source unless the archive has been
  written in full, and names the failure of finalising the archive among those that
  keep the source. The code defers \<^verbatim>\<open>zipWriter.Close()\<close>, so the archive is flushed and
  finalised after \<^verbatim>\<open>os.Remove(src)\<close> has run: when the eight calls before it succeed
  and the finalisation fails (the call at position 8 of the run), the source is gone
  and the archive file is as it was created, empty. A failure of any call before the
  copy has ended keeps the source, as \<open>compressFile_early_failure\<close> shows.
\<close>

theorem compressFile_deletes_before_finalising:
  "files (compressFile ''logs/2024_05_01.log'' (retiredWorld (\<lambda>k. k = 8)))
     ''logs/2024_05_01.log'' = None
   \<and> files (compressFile ''logs/2024_05_01.log'' (retiredWorld (\<lambda>k. k = 8)))
       ''logs/2024_05_01.log.zip'' = Some (Raw [])"
proof -
  have src: "files (retiredWorld (\<lambda>k. k = 8)) ''logs/2024_05_01.log'' = Some (Raw ''old'')"
    by (simp add: retiredWorld_def)
  have ok: "\<forall>k < 8. \<not> faults (retiredWorld (\<lambda>k. k = 8))
                          (length (trace (retiredWorld (\<lambda>k. k = 8))) + k)"
    by (simp add: retiredWorld_def)
  have last: "faults (retiredWorld (\<lambda>k. k = 8)) (length (trace (retiredWorld (\<lambda>k. k = 8))) + 8)"
    "short (retiredWorld (\<lambda>k. k = 8)) (length (trace (retiredWorld (\<lambda>k. k = 8))) + 8) = 0"
    by (simp_all add: retiredWorld_def)
  show ?thesis
    using compressFile_run [OF src ok] last by simp
qed

section \<open>The name of the open file\<close>

lemma compressBody_length [simp]:
  "length (handles (snd (compressBody src f zw w))) = length (handles w)"
  by (simp add: compressBody_def split_beta split: sum.split option.split)

lemma compressBody_handles:
  assumes "i \<noteq> f"
  shows "handles (snd (compressBody src f zw w)) ! i = handles w ! i"
  using assms
  by (simp add: compressBody_def split_beta Close_other split: sum.split option.split)

lemma compressFile_handles:
  assumes "i < length (handles w)"
  shows "handles (compressFile src w) ! i = handles w ! i"
    and "i < length (handles (compressFile src w))"
  using assms
  by (simp_all add: compressFile_def split_beta Close_other compressBody_handles nth_append
      split: sum.split)


lemma Format_may1: "Format (may 1) = ''2024_05_01''"
  by (simp add: Format_def appendInt_def may_def digit_def)

lemma Join_eval: "filepath_Join id ''logs'' (Format (may 1) @ ''.log'') = ''logs/2024_05_01.log''"
  by (simp only: Format_may1 filepath_Join_def) simp

lemma named_handles_cong:
  assumes "named clean d (r, w)" "length (handles w') = length (handles w)"
    and "\<And>i. fname (handles w' ! i) = fname (handles w ! i)"
    and "\<And>i. closed (handles w ! i) \<Longrightarrow> closed (handles w' ! i)"
  shows "named clean d (r, w')"
  using assms by (auto simp: named_def split: option.splits)

lemma named_Close:
  assumes "named clean d (r, w)"
  shows "named clean d (r, snd (Close r w))"
proof (rule named_handles_cong [OF assms])
  show "length (handles (snd (Close r w))) = length (handles w)"
    by (simp add: Close_def split_beta split: option.split)
  show "fname (handles (snd (Close r w)) ! i) = fname (handles w ! i)" for i
    by (simp add: Close_def split_beta split: option.split)
  show "closed (handles w ! i) \<Longrightarrow> closed (handles (snd (Close r w)) ! i)" for i
    by (simp add: Close_def split_beta Close_mono split: option.split)
qed

lemma named_worker:
  assumes "named clean d (r, w)"
  shows "named clean d (r, compressFile src w)"
  using assms by (auto simp: named_def compressFile_handles split: option.splits)

lemma rotate_file_stops_handles:
  assumes "file r = Some h" "h < length (handles w)" "\<not> closes_ok h w"
  shows "length (handles (snd (snd (rotate_file clean r w)))) = length (handles w)"
    and "fname (handles (snd (snd (rotate_file clean r w))) ! i) = fname (handles w ! i)"
    and "closed (handles w ! i) \<Longrightarrow> closed (handles (snd (snd (rotate_file clean r w))) ! i)"
  using assms
  by (auto simp add: rotate_file_def split_beta Sync_fst Close_fst Sync_trace valid_def
      fault_def closes_ok_def Close_mono split: option.splits)

lemma named_Write_Some:
  assumes f: "file r = Some h" and n: "named clean d (r, w)"
  shows "named clean d (snd (Write clean r p w))"
proof -
  have v: "h < length (handles w)" and pd: "path r = d" using n f by (simp_all add: named_def)
  define wN where "wN = snd (needRotate r w)"
  have vN: "h < length (handles wN)" using v by (simp add: wN_def)
  have nN: "named clean d (r, wN)" using n f by (simp add: named_def wN_def)
  show ?thesis
  proof (cases "fst (needRotate r w)")
    case False
    show ?thesis using nN f by (simp add: Write_no_rotation [OF f False] named_def wN_def)
  next
    case need: True
    show ?thesis
    proof (cases "closes_ok h wN")
      case False
      note st = rotate_file_stops [OF f vN False, of clean]
      from st(1) obtain e where e: "fst (rotate_file clean r wN) = Some e" by auto
      have W: "snd (Write clean r p w) = (r, snd (snd (rotate_file clean r wN)))"
        using Write_rotation_fails [OF f need, of clean e p] e st(2) by (simp add: wN_def prod_eq_iff)
      show ?thesis unfolding W
        by (rule named_handles_cong [OF nN]) (simp_all add: rotate_file_stops_handles [OF f vN False])
    next
      case c: True
      define t where "t = clock wN (ticks wN)"
      define Q where "Q = openNew clean t r (retired r h wN)"
      have R: "rotate_file clean r wN = Q"
        using rotate_file_reaches_open [OF f vN c, of clean] by (simp add: Q_def t_def)
      show ?thesis
      proof (cases "fst Q")
        case None
        have W: "snd (Write clean r p w) =
           (fst (snd Q), snd (File_Write (file (fst (snd Q))) p (snd (snd Q))))"
          using Write_rotation_done [OF f need, of clean p] None R by (simp add: wN_def)
        show ?thesis
          using None pd by (simp add: W named_def Q_def openNew_sink openNew_handles nth_append)
      next
        case (Some e)
        have W: "snd (Write clean r p w) = (fst (snd Q), snd (snd Q))"
          using Write_rotation_fails [OF f need, of clean e p] Some R by (simp add: wN_def)
        show ?thesis
          using Some pd f vN by (simp add: W named_def Q_def openNew_sink openNew_handles)
      qed
    qed
  qed
qed

lemma named_Write:
  assumes n: "named clean d (r, w)"
  shows "named clean d (snd (Write clean r p w))"
proof (cases "file r")
  case (Some h)
  then show ?thesis using named_Write_Some [OF Some n] by simp
next
  case None
  have pd: "path r = d" using n by (simp add: named_def)
  define Q where "Q = openNew clean (clock w (ticks w)) r (snd (Now w))"
  show ?thesis
  proof (cases "fst Q")
    case (Some e)
    show ?thesis
      using Write_first_open_fails [OF None, of clean w e p] Some None pd
      by (simp add: Q_def named_def)
  next
    case ok: None
    define r1 where "r1 = r\<lparr>date := clock w (ticks w), file := Some (length (handles w))\<rparr>"
    have W: "Write clean r p w = Write clean r1 p (snd (snd Q))"
      using Write_first_open_done [OF None, of clean w p] ok by (simp add: Q_def r1_def)
    have f1: "file r1 = Some (length (handles w))" by (simp add: r1_def)
    have n1: "named clean d (r1, snd (snd Q))"
      using ok pd by (simp add: named_def r1_def Q_def openNew_handles)
    show ?thesis unfolding W by (rule named_Write_Some [OF f1 n1])
  qed
qed

lemma named_step: "named clean d s \<Longrightarrow> named clean d (step clean c s)"
  by (cases c; cases s) (simp_all add: named_Write named_Close named_worker)

lemma named_run: "named clean d s \<Longrightarrow> named clean d (run clean cs s)"
  unfolding run_def by (induction cs arbitrary: s) (simp_all add: named_step)

lemma named_new: "named clean d (newRotator d c, w)"
  by (simp add: named_def newRotator_def)


lemma afterWrite_open:
  "\<not> closed (handles (snd (snd afterWrite)) ! 0)"
  "date (fst (snd afterWrite)) = may 1"
  by (simp_all add: afterWrite_def newRotator_def emptyWorld_def sink_defs zeroTime_def may_def)

text \<open>
  Claim C8. After any sequence of calls on a new sink, the file it holds open is named
  \<^verbatim>\<open>filepath.Join(directory, YYYY_MM_DD + ".log")\<close> for the stored date, which for a
  directory that is not empty is the cleaned form of the directory, a separator, the
  year, month and day joined by underscores, and the extension. A run of the worker in
  which no call fails leaves the archive at the source's name with \<^verbatim>\<open>.zip\<close> appended,
  holding one entry, named by the base name of the source, with the source's bytes.
\<close>

theorem file_name_follows_date:
  "named clean d (run clean cs (newRotator d c, w0))
   \<and> (d \<noteq> [] \<longrightarrow>
        filepath_Join clean d (Format t @ ''.log'')
          = clean (d @ ''/'' @ appendInt (Year t) 4 @ ''_'' @ appendInt (int (Month t)) 2 @ ''_''
                     @ appendInt (int (Day t)) 2 @ ''.log''))
   \<and> (calm w \<and> files w src = Some (Raw bs) \<longrightarrow>
        files (compressFile src w)
          = (files w)(src := None, src @ ''.zip'' \<mapsto> Zip [(Base src, bs)] True))"
proof (intro conjI impI)
  show "named clean d (run clean cs (newRotator d c, w0))"
    by (rule named_run [OF named_new])
next
  assume "d \<noteq> []"
  then show "filepath_Join clean d (Format t @ ''.log'')
          = clean (d @ ''/'' @ appendInt (Year t) 4 @ ''_'' @ appendInt (int (Month t)) 2 @ ''_''
                     @ appendInt (int (Day t)) 2 @ ''.log'')"
    by (simp add: filepath_Join_def Format_def)
next
  assume a: "calm w \<and> files w src = Some (Raw bs)"
  then have ok: "\<forall>k < 8. \<not> faults w (length (trace w) + k)"
    and l: "\<not> faults w (length (trace w) + 8)"
    by (simp_all add: calm_def)
  from compressFile_run [of w src bs, OF _ ok] a l
  show "files (compressFile src w)
          = (files w)(src := None, src @ ''.zip'' \<mapsto> Zip [(Base src, bs)] True)"
    by simp
qed

theorem file_name_follows_date_witness:
  "file (fst (run id [CallWrite ''hello'']
                (newRotator ''logs'' True, emptyWorld (\<lambda>k. may 1) (\<lambda>k. False)))) = Some 0
   \<and> \<not> closed (handles (snd (run id [CallWrite ''hello'']
                (newRotator ''logs'' True, emptyWorld (\<lambda>k. may 1) (\<lambda>k. False)))) ! 0)
   \<and> fname (handles (snd (run id [CallWrite ''hello'']
                (newRotator ''logs'' True, emptyWorld (\<lambda>k. may 1) (\<lambda>k. False)))) ! 0)
       = ''logs/2024_05_01.log''
   \<and> ''logs'' \<noteq> []
   \<and> calm (retiredWorld (\<lambda>k. False))
   \<and> files (retiredWorld (\<lambda>k. False)) ''logs/2024_05_01.log'' = Some (Raw ''old'')
   \<and> files (compressFile ''logs/2024_05_01.log'' (retiredWorld (\<lambda>k. False)))
        ''logs/2024_05_01.log.zip'' = Some (Zip [(''2024_05_01.log'', ''old'')] True)"
proof -
  have r: "run id [CallWrite ''hello'']
             (newRotator ''logs'' True, emptyWorld (\<lambda>k. may 1) (\<lambda>k. False)) = snd afterWrite"
    by (simp add: run_def afterWrite_def)
  have c: "calm (retiredWorld (\<lambda>k. False))"
    and s: "files (retiredWorld (\<lambda>k. False)) ''logs/2024_05_01.log'' = Some (Raw ''old'')"
    by (simp_all add: calm_def retiredWorld_def)
  note inst = file_name_follows_date [of id "''logs''" "[CallWrite ''hello'']" True
      "emptyWorld (\<lambda>k. may 1) (\<lambda>k. False)" "may 1" "retiredWorld (\<lambda>k. False)"
      "''logs/2024_05_01.log''" "''old''"]
  have n: "named id ''logs'' (snd afterWrite)"
    using inst [THEN conjunct1] unfolding r .
  have "files (compressFile ''logs/2024_05_01.log'' (retiredWorld (\<lambda>k. False)))
          = (files (retiredWorld (\<lambda>k. False)))
              (''logs/2024_05_01.log'' := None,
               ''logs/2024_05_01.log'' @ ''.zip'' \<mapsto> Zip [(Base ''logs/2024_05_01.log'', ''old'')] True)"
    using inst [THEN conjunct2, THEN conjunct2] c s by blast
  then have z: "files (compressFile ''logs/2024_05_01.log'' (retiredWorld (\<lambda>k. False)))
        ''logs/2024_05_01.log.zip'' = Some (Zip [(''2024_05_01.log'', ''old'')] True)"
    by (simp add: Base_eval)
  from n have "fname (handles (snd (snd afterWrite)) ! 0) = ''logs/2024_05_01.log''"
    by (simp add: named_def afterWrite_eval afterWrite_open Join_eval [unfolded One_nat_def])
  then show ?thesis
    unfolding r using c s z by (simp add: afterWrite_eval afterWrite_open)
qed
section \<open>The facade: \<^verbatim>\<open>WithFields\<close>\<close>

lemma zap_With_ok:
  assumes "b < length (zaps h)"
  shows "\<exists>nb h1. zap_With (Some b) fs h = Inr (Some nb, h1) \<and> nb < length (zaps h1)
           \<and> loggers h1 = loggers h \<and> take (length (zaps h)) (zaps h1) = zaps h
           \<and> take (length (sugars h)) (sugars h1) = sugars h"
  using assms by (simp add: zap_With_def)

lemma zap_Sugar_ok:
  assumes "b < length (zaps h)"
  shows "\<exists>ns h1. zap_Sugar (Some b) h = Inr (ns, h1)
           \<and> loggers h1 = loggers h \<and> take (length (zaps h)) (zaps h1) = zaps h
           \<and> take (length (sugars h)) (sugars h1) = sugars h"
  using assms by (simp add: zap_Sugar_def)

lemma take_take_le: "n \<le> m \<Longrightarrow> take m ys = xs \<Longrightarrow> length xs = m \<Longrightarrow> take n ys = take n xs"
  by (metis min.absorb_iff2 take_take min.commute)

text \<open>
  Claim C10, as stated (for every \<^verbatim>\<open>Logger\<close>), fails on a logger whose base logger is
  nil, such as the one \<^verbatim>\<open>NewLogger()\<close> returns before \<^verbatim>\<open>InitLogger\<close>: \<^verbatim>\<open>WithFields\<close>
  returns no logger, it panics in \<^verbatim>\<open>newBaseLogger.Sugar()\<close>.
\<close>

theorem WithFields_uninitialised_panics:
  "WithFields 0 [] freshHeap = Inl NilDereference"
  by (simp add: WithFields_def zap_With_def zap_Sugar_def NewLogger_literal_def freshHeap_def)

text \<open>
  Claim C10, amended. For every \<^verbatim>\<open>Logger\<close> whose base logger is set and every list of
  fields, \<^verbatim>\<open>WithFields\<close> returns a new \<^verbatim>\<open>Logger\<close>, at an address other than the
  receiver's, whose path, level, structured flag and rotator pointer are the
  receiver's (the sink is shared, not copied); the receiver and every object that
  existed before the call are unchanged.
\<close>

theorem WithFields_shares_sink:
  assumes l: "l < length (loggers h)"
    and b: "baseLogger (loggers h ! l) = Some b" "b < length (zaps h)"
  shows "\<exists>l' h'. WithFields l flds h = Inr (l', h') \<and> l' \<noteq> l \<and> l' < length (loggers h')
           \<and> Logger.path (loggers h' ! l') = Logger.path (loggers h ! l)
           \<and> level (loggers h' ! l') = level (loggers h ! l)
           \<and> structured (loggers h' ! l') = structured (loggers h ! l)
           \<and> rotator (loggers h' ! l') = rotator (loggers h ! l)
           \<and> loggers h' ! l = loggers h ! l
           \<and> take (length (loggers h)) (loggers h') = loggers h
           \<and> take (length (zaps h)) (zaps h') = zaps h
           \<and> take (length (sugars h)) (sugars h') = sugars h"
proof -
  obtain nb h1 where w: "zap_With (Some b) (appendFields flds []) h = Inr (Some nb, h1)"
    and nb: "nb < length (zaps h1)" and l1: "loggers h1 = loggers h"
    and z1: "take (length (zaps h)) (zaps h1) = zaps h"
    and s1: "take (length (sugars h)) (sugars h1) = sugars h"
    using zap_With_ok [OF b(2)] by blast
  obtain ns h2 where s: "zap_Sugar (Some nb) h1 = Inr (ns, h2)"
    and l2: "loggers h2 = loggers h1"
    and z2: "take (length (zaps h1)) (zaps h2) = zaps h1"
    and s2: "take (length (sugars h1)) (sugars h2) = sugars h1"
    using zap_Sugar_ok [OF nb] by blast
  have zl: "length (zaps h) \<le> length (zaps h1)"
    using z1 by (metis length_take min.cobounded1)
  have sl: "length (sugars h) \<le> length (sugars h1)"
    using s1 by (metis length_take min.cobounded1)
  have z: "take (length (zaps h)) (zaps h2) = zaps h"
    using take_take_le [OF zl z2] z1 by simp
  have ss: "take (length (sugars h)) (sugars h2) = sugars h"
    using take_take_le [OF sl s2] s1 by simp
  show ?thesis
    using l b(1) w s l1 l2 z ss
    by (simp add: WithFields_def nth_append)
qed

theorem WithFields_shares_sink_witness:
  "0 < length (loggers initHeap) \<and> baseLogger (loggers initHeap ! 0) = Some 0
   \<and> 0 < length (zaps initHeap)
   \<and> (\<exists>l' h'. WithFields 0 [(''request'', ''42'')] initHeap = Inr (l', h') \<and> l' \<noteq> 0
         \<and> rotator (loggers h' ! l') = Some 0 \<and> loggers h' ! 0 = loggers initHeap ! 0)"
proof -
  have h: "0 < length (loggers initHeap)" "baseLogger (loggers initHeap ! 0) = Some 0"
    "0 < length (zaps initHeap)"
    by (simp_all add: initHeap_def)
  have r: "rotator (loggers initHeap ! 0) = Some 0"
    by (simp add: initHeap_def)
  from WithFields_shares_sink [OF h, of "[(''request'', ''42'')]"] r h show ?thesis
    by auto
qed

end
